theory Spec2Isabelle
  imports
    Complex_Main
    "HOL-Library.Char_ord"
    "HOL-Library.List_Lexorder"
    "HOL-Library.Product_Lexorder"
begin

section \<open>Tables\<close>

text \<open>
  The program works on pandas tables. A table is modelled by its ordered column labels and
  its rows; a row holds one cell per column, in the order of the labels.

  A cell is an integer (the years and the numbers of recorded facts of the data set), a
  string, or the missing value of pandas. Integers are unbounded here: the 64-bit range of
  a pandas integer column is out of reach of counts of recorded facts. Fractional numbers in
  the input are outside the model.

  Strings are byte strings in UTF-8, so a letter with an accent is two characters.
\<close>

datatype cell = Num int | Str string | NaN

text \<open>The exceptions the modelled code can raise; \<open>KeyError\<close> carries the missing label.\<close>

datatype error = KeyError string | TypeError | ValueError

record dataframe =
  columns :: "string list"
  rows :: "cell list list"

text \<open>
  The values computed by floating-point division: a finite number, kept exact, the two
  infinities, and not-a-number (which is also how pandas shows a missing number).
\<close>

datatype fval = Fin rat | PInf | NInf | FNaN

fun index_of :: "string \<Rightarrow> string list \<Rightarrow> nat option" where
  "index_of c [] = None"
| "index_of c (x # xs) = (if x = c then Some 0 else map_option Suc (index_of c xs))"

definition cell_at :: "nat \<Rightarrow> cell list \<Rightarrow> cell" where
  "cell_at i r = (if i < length r then r ! i else NaN)"

text \<open>
  A table is well formed when its labels are distinct (as \<open>read_csv\<close> makes them) and
  every row has one cell per label.
\<close>

definition wf_df :: "dataframe \<Rightarrow> bool" where
  "wf_df df \<longleftrightarrow>
     distinct (columns df) \<and> list_all (\<lambda>r. length r = length (columns df)) (rows df)"

fun is_Str :: "cell \<Rightarrow> bool" where
  "is_Str (Str s) = True"
| "is_Str c = False"

fun num_of :: "cell \<Rightarrow> int" where
  "num_of (Num n) = n"
| "num_of c = 0"

text \<open>
  \<open>sum\<close> of pandas skips missing values. A string cell in a summed column is reported as
  \<open>TypeError\<close>: pandas raises it when a string meets a number (and otherwise joins the
  strings, which is no count either).
\<close>

definition sum_cells :: "cell list \<Rightarrow> error + int" where
  "sum_cells cs = (if list_ex is_Str cs then Inl TypeError else Inr (sum_list (map num_of cs)))"

text \<open>Python's truth value of an optional argument: \<open>None\<close>, \<open>''\<close> and \<open>0\<close> are false.\<close>

fun truthy_str :: "string option \<Rightarrow> bool" where
  "truthy_str None = False"
| "truthy_str (Some s) = (s \<noteq> [])"

fun truthy_int :: "int option \<Rightarrow> bool" where
  "truthy_int None = False"
| "truthy_int (Some y) = (y \<noteq> 0)"

text \<open>\<open>df[df[c] == v]\<close>: the rows whose cell under \<open>c\<close> equals \<open>v\<close>, as a new table.\<close>

definition filter_eq :: "dataframe \<Rightarrow> string \<Rightarrow> cell \<Rightarrow> error + dataframe" where
  "filter_eq df c v =
     (case index_of c (columns df) of
        None \<Rightarrow> Inl (KeyError c)
      | Some i \<Rightarrow> Inr (df\<lparr>rows := filter (\<lambda>r. cell_at i r = v) (rows df)\<rparr>))"

subsection \<open>The count column\<close>

text \<open>
  \<open>str.isdigit\<close> and \<open>str.lower\<close>, on ASCII: a column label that holds other digits or
  letters is not a month column of the data set.
\<close>

definition isdigit :: "string \<Rightarrow> bool" where
  "isdigit s \<longleftrightarrow> s \<noteq> [] \<and> list_all (\<lambda>c. c \<in> set ''0123456789'') s"

definition lower_char :: "char \<Rightarrow> char" where
  "lower_char c =
     (case map_of (zip ''ABCDEFGHIJKLMNOPQRSTUVWXYZ'' ''abcdefghijklmnopqrstuvwxyz'') c of
        Some l \<Rightarrow> l
      | None \<Rightarrow> c)"

definition lower :: "string \<Rightarrow> string" where
  "lower s = map lower_char s"

fun contains :: "string \<Rightarrow> string \<Rightarrow> bool" where
  "contains n [] = (n = [])"
| "contains n (h # hs) = (take (length n) (h # hs) = n \<or> contains n hs)"

definition is_month_col :: "string \<Rightarrow> bool" where
  "is_month_col col \<longleftrightarrow> isdigit col \<or> contains ''mois'' (lower col)"

definition month_cols :: "dataframe \<Rightarrow> string list" where
  "month_cols df = filter is_month_col (columns df)"

text \<open>\<open>df[cols].sum(axis=1)\<close>: one sum per row, over the cells under the labels \<open>cols\<close>.\<close>

definition row_sums :: "dataframe \<Rightarrow> string list \<Rightarrow> error + int list" where
  "row_sums df cols =
     (let idx = List.map_filter (\<lambda>c. index_of c (columns df)) cols;
          sel = map (\<lambda>r. map (\<lambda>i. cell_at i r) idx) (rows df)
      in if list_ex (list_ex is_Str) sel then Inl TypeError
         else Inr (map (\<lambda>cs. sum_list (map num_of cs)) sel))"

text \<open>\<open>df[c] = vs\<close> for a label \<open>c\<close> the table does not have: a new last column.\<close>

definition add_column :: "dataframe \<Rightarrow> string \<Rightarrow> cell list \<Rightarrow> dataframe" where
  "add_column df c vs =
     \<lparr>columns = columns df @ [c], rows = map2 (\<lambda>r v. r @ [v]) (rows df) vs\<rparr>"

text \<open>
  The block every aggregation starts with: when the table has no \<open>faits\<close> column, it gets
  one, the row sums of the month columns or else the constant 1. The block assigns into the
  table it is given, so the model returns that table as it is afterwards.
\<close>

definition ensure_faits :: "dataframe \<Rightarrow> error + dataframe" where
  "ensure_faits df =
     (if ''faits'' \<notin> set (columns df) then
        (if month_cols df \<noteq> [] then
           (case row_sums df (month_cols df) of
              Inl e \<Rightarrow> Inl e
            | Inr s \<Rightarrow> Inr (add_column df ''faits'' (map Num s)))
         else Inr (add_column df ''faits'' (map (\<lambda>r. Num 1) (rows df))))
      else Inr df)"

subsection \<open>Grouping, sorting, truncating\<close>

text \<open>
  \<open>groupby\<close> drops the rows whose key holds a missing value and yields the groups in the
  order of their keys: numbers by value, strings by code point, numbers before strings.
\<close>

definition cell_ord :: "cell \<Rightarrow> nat \<times> int \<times> string" where
  "cell_ord c = (case c of Num n \<Rightarrow> (0, n, []) | Str s \<Rightarrow> (1, 0, s) | NaN \<Rightarrow> (2, 0, []))"

definition key_of :: "nat list \<Rightarrow> cell list \<Rightarrow> cell list" where
  "key_of ks r = map (\<lambda>i. cell_at i r) ks"

definition group_keys :: "nat list \<Rightarrow> cell list list \<Rightarrow> cell list list" where
  "group_keys ks rs =
     sort_key (map cell_ord) (remdups (filter (\<lambda>k. NaN \<notin> set k) (map (key_of ks) rs)))"

definition groupby :: "nat list \<Rightarrow> cell list list \<Rightarrow> (cell list \<times> cell list list) list" where
  "groupby ks rs = map (\<lambda>k. (k, filter (\<lambda>r. key_of ks r = k) rs)) (group_keys ks rs)"

text \<open>The sum of the column at position \<open>i\<close> over the rows of a group.\<close>

definition group_sum :: "nat \<Rightarrow> cell list list \<Rightarrow> int" where
  "group_sum i g = sum_list (map (\<lambda>r. num_of (cell_at i r)) g)"

text \<open>\<open>count\<close> of a column over a group: the cells that are not missing.\<close>

definition group_count :: "nat \<Rightarrow> cell list list \<Rightarrow> nat" where
  "group_count i g = length (filter (\<lambda>r. cell_at i r \<noteq> NaN) g)"

text \<open>
  \<open>sort_values(..., ascending=False)\<close>: pandas reverses the rows, sorts them in ascending
  order and reverses the outcome. The sort is taken stable here, so rows with equal values
  keep their order; numpy's default sort leaves that order open on long tables.
\<close>

definition sort_desc :: "('a \<Rightarrow> int) \<Rightarrow> 'a list \<Rightarrow> 'a list" where
  "sort_desc f xs = rev (sort_key f (rev xs))"

text \<open>\<open>head(n)\<close>: the first \<open>n\<close> rows, and all but the last \<open>-n\<close> when \<open>n\<close> is negative.\<close>

definition head :: "int \<Rightarrow> 'a list \<Rightarrow> 'a list" where
  "head n xs = (if 0 \<le> n then take (nat n) xs else take (length xs - nat (- n)) xs)"

subsection \<open>Floating-point results\<close>

text \<open>The true division of two integer columns: dividing by zero gives an infinity or NaN.\<close>

definition fdiv :: "int \<Rightarrow> int \<Rightarrow> fval" where
  "fdiv a b =
     (if b = 0 then (if 0 < a then PInf else if a < 0 then NInf else FNaN)
      else Fin (of_int a / of_int b))"

text \<open>
  Subtracting 1, multiplying by 100 and rounding act on the finite values; infinities and
  NaN pass through.
\<close>

fun fmap :: "(rat \<Rightarrow> rat) \<Rightarrow> fval \<Rightarrow> fval" where
  "fmap f (Fin q) = Fin (f q)"
| "fmap f v = v"

text \<open>\<open>Series.pct_change()\<close>: each value over the one before it, minus 1; nothing for the first.\<close>

fun pct_change :: "int list \<Rightarrow> fval list" where
  "pct_change [] = []"
| "pct_change (x # xs) =
     FNaN # map2 (\<lambda>prev cur. fmap (\<lambda>q. q - 1) (fdiv cur prev)) (x # xs) xs"

text \<open>\<open>round(2)\<close>: to the nearest multiple of 1/100, a tie going to the even one.\<close>

definition round_half_even :: "rat \<Rightarrow> int" where
  "round_half_even q =
     (let f = \<lfloor>q\<rfloor>; d = q - of_int f
      in if d < 1 / 2 then f else if 1 / 2 < d then f + 1 else if even f then f else f + 1)"

definition round2 :: "rat \<Rightarrow> rat" where
  "round2 q = of_int (round_half_even (q * 100)) / 100"

section \<open>The aggregations of \<open>DataLoader\<close>\<close>

text \<open>
  Each aggregation takes the caller's table and is modelled by a function that returns a
  pair: the caller's table as it is after the call, and the outcome, an error or the rows
  of the new table. Where the source works on \<open>df.copy()\<close> or on a filtered selection (a
  new table), the caller's table comes back as it was.

  The functions are the bodies of the methods: the caching decorator, which skips the body
  when it has seen the arguments before, is not modelled. A column is looked up by the
  first position of its label; the labels of a table given to an aggregation are taken to
  be distinct (see \<open>wf_df\<close>).
\<close>

text \<open>Running on after a step that may raise: the first error ends the call.\<close>

fun bind_err :: "error + 'a \<Rightarrow> ('a \<Rightarrow> error + 'b) \<Rightarrow> error + 'b" where
  "bind_err (Inl e) f = Inl e"
| "bind_err (Inr x) f = f x"

definition col_pos :: "dataframe \<Rightarrow> string \<Rightarrow> error + nat" where
  "col_pos df c = (case index_of c (columns df) of None \<Rightarrow> Inl (KeyError c) | Some i \<Rightarrow> Inr i)"

definition has_str :: "nat \<Rightarrow> cell list list \<Rightarrow> bool" where
  "has_str i rs = list_ex (\<lambda>r. is_Str (cell_at i r)) rs"

fun str_val :: "string option \<Rightarrow> string" where
  "str_val None = []"
| "str_val (Some s) = s"

fun int_val :: "int option \<Rightarrow> int" where
  "int_val None = 0"
| "int_val (Some y) = y"

text \<open>\<open>if flag: df = df[df[c] == v]\<close>\<close>

definition filter_if :: "bool \<Rightarrow> string \<Rightarrow> cell \<Rightarrow> dataframe \<Rightarrow> error + dataframe" where
  "filter_if flag c v df = (if flag then filter_eq df c v else Inr df)"

subsection \<open>\<open>get_department_stats\<close>\<close>

record stats_row =
  st_code_dept :: cell
  st_departement :: cell
  st_total_faits :: int
  st_nb_enregistrements :: nat

text \<open>The grouping, the two aggregates and the sort, on a table that has its count column.\<close>

definition department_stats_of :: "dataframe \<Rightarrow> error + stats_row list" where
  "department_stats_of df =
     bind_err (col_pos df ''code_dept'') (\<lambda>ic.
     bind_err (col_pos df ''departement'') (\<lambda>idp.
     bind_err (col_pos df ''faits'') (\<lambda>jf.
     bind_err (col_pos df ''annee'') (\<lambda>ia.
       if has_str jf (rows df) then Inl TypeError
       else Inr (sort_desc st_total_faits
              (map (\<lambda>(k, g). \<lparr>st_code_dept = cell_at 0 k, st_departement = cell_at 1 k,
                               st_total_faits = group_sum jf g,
                               st_nb_enregistrements = group_count ia g\<rparr>)
                 (groupby [ic, idp] (rows df))))))))"

definition get_department_stats :: "dataframe \<Rightarrow> dataframe \<times> (error + stats_row list)" where
  "get_department_stats df =
     (case ensure_faits df of
        Inl e \<Rightarrow> (df, Inl e)
      | Inr df' \<Rightarrow> (df', department_stats_of df'))"

subsection \<open>\<open>get_temporal_evolution\<close>\<close>

record evolution_row =
  ev_annee :: cell
  ev_total_faits :: int
  ev_evolution_pct :: fval

definition temporal_evolution_of :: "dataframe \<Rightarrow> error + evolution_row list" where
  "temporal_evolution_of df =
     bind_err (col_pos df ''annee'') (\<lambda>ia.
     bind_err (col_pos df ''faits'') (\<lambda>jf.
       if has_str jf (rows df) then Inl TypeError
       else (let gs = groupby [ia] (rows df);
                 totals = map (\<lambda>(k, g). group_sum jf g) gs;
                 pcts = map (fmap (\<lambda>q. q * 100)) (pct_change totals)
             in Inr (map2 (\<lambda>(k, g) p. \<lparr>ev_annee = cell_at 0 k,
                                         ev_total_faits = group_sum jf g,
                                         ev_evolution_pct = p\<rparr>) gs pcts))))"

text \<open>
  With a department code, \<open>df\<close> is rebound to the selection, and the count column is added
  to the selection; without one, it is added to the caller's table.
\<close>

definition get_temporal_evolution ::
  "dataframe \<Rightarrow> string option \<Rightarrow> dataframe \<times> (error + evolution_row list)" where
  "get_temporal_evolution df dept_code =
     (if truthy_str dept_code then
        (df, bind_err (filter_eq df ''code_dept'' (Str (str_val dept_code))) (\<lambda>sel.
             bind_err (ensure_faits sel) temporal_evolution_of))
      else
        (case ensure_faits df of
           Inl e \<Rightarrow> (df, Inl e)
         | Inr df' \<Rightarrow> (df', temporal_evolution_of df')))"

subsection \<open>\<open>get_crime_types_distribution\<close>\<close>

record distribution_row =
  di_type_crime :: cell
  di_total :: int
  di_pourcentage :: fval

definition crime_types_distribution_of :: "dataframe \<Rightarrow> error + distribution_row list" where
  "crime_types_distribution_of df =
     bind_err (col_pos df ''classe'') (\<lambda>ic.
     bind_err (col_pos df ''faits'') (\<lambda>jf.
       if has_str jf (rows df) then Inl TypeError
       else (let dist = sort_desc snd
                          (map (\<lambda>(k, g). (cell_at 0 k, group_sum jf g)) (groupby [ic] (rows df)));
                 s = sum_list (map snd dist)
             in Inr (map (\<lambda>(c, t). \<lparr>di_type_crime = c, di_total = t,
                                     di_pourcentage =
                                       fmap round2 (fmap (\<lambda>q. q * 100) (fdiv t s))\<rparr>) dist))))"

text \<open>The two filters of the distribution, applied to the copy of the caller's table.\<close>

definition filtered :: "dataframe \<Rightarrow> string option \<Rightarrow> int option \<Rightarrow> error + dataframe" where
  "filtered df dept_code year =
     bind_err (filter_if (truthy_str dept_code) ''code_dept'' (Str (str_val dept_code)) df)
       (filter_if (truthy_int year) ''annee'' (Num (int_val year)))"

definition get_crime_types_distribution ::
  "dataframe \<Rightarrow> string option \<Rightarrow> int option \<Rightarrow> dataframe \<times> (error + distribution_row list)" where
  "get_crime_types_distribution df dept_code year =
     (df, bind_err (filtered df dept_code year) (\<lambda>f.
          bind_err (ensure_faits f) crime_types_distribution_of))"

subsection \<open>\<open>get_top_departments\<close>\<close>

record top_row =
  tp_code_dept :: cell
  tp_departement :: cell
  tp_total_faits :: int

text \<open>The groups with their sums, sorted, before the truncation.\<close>

definition ranked_departments :: "dataframe \<Rightarrow> error + top_row list" where
  "ranked_departments df =
     bind_err (col_pos df ''code_dept'') (\<lambda>ic.
     bind_err (col_pos df ''departement'') (\<lambda>idp.
     bind_err (col_pos df ''faits'') (\<lambda>jf.
       if has_str jf (rows df) then Inl TypeError
       else Inr (sort_desc tp_total_faits
              (map (\<lambda>(k, g). \<lparr>tp_code_dept = cell_at 0 k, tp_departement = cell_at 1 k,
                               tp_total_faits = group_sum jf g\<rparr>)
                 (groupby [ic, idp] (rows df)))))))"

definition get_top_departments ::
  "dataframe \<Rightarrow> int \<Rightarrow> int option \<Rightarrow> dataframe \<times> (error + top_row list)" where
  "get_top_departments df n year =
     (df, bind_err (filter_if (truthy_int year) ''annee'' (Num (int_val year)) df) (\<lambda>f.
          bind_err (ensure_faits f) (\<lambda>f'.
          bind_err (ranked_departments f') (\<lambda>ranked. Inr (head n ranked)))))"

subsection \<open>The rate per 1000 inhabitants\<close>

text \<open>Python's \<open>/\<close> on integers is the true division; the quotient is kept exact.\<close>

definition calculate_crime_rate :: "int \<Rightarrow> int \<Rightarrow> rat" where
  "calculate_crime_rate total_crimes population =
     (if population = 0 then 0
      else (of_int total_crimes / of_int population) * 1000)"

section \<open>The normalisation of the raw table\<close>

text \<open>The accented letters of the source's labels, as their two UTF-8 bytes.\<close>

definition e_acute :: string where
  "e_acute = [CHR 0xC3, CHR 0xA9]"

definition column_mapping :: "(string \<times> string) list" where
  "column_mapping =
     [(''Code d'' @ e_acute @ ''partement'', ''code_dept''),
      (''D'' @ e_acute @ ''partement'', ''departement''),
      (''Code service'', ''code_service''),
      (''Service'', ''service''),
      (''Unit'' @ e_acute @ '' de compte'', ''unite''),
      (''Classe'', ''classe''),
      (''classe'', ''classe''),
      (''Index'', ''index''),
      (''Mill'' @ e_acute @ ''sime'', ''annee''),
      (''annee'', ''annee'')]"

text \<open>\<open>df.rename(columns=...)\<close> on one label: a key of the mapping becomes its value.\<close>

definition rename_col :: "string \<Rightarrow> string" where
  "rename_col c = (case map_of column_mapping c of Some v \<Rightarrow> v | None \<Rightarrow> c)"

text \<open>All the positions of a label: a renaming can give two columns the same label.\<close>

definition positions :: "string \<Rightarrow> string list \<Rightarrow> nat list" where
  "positions c cols = filter (\<lambda>i. cols ! i = c) [0..<length cols]"

text \<open>
  \<open>pd.to_numeric(..., errors='coerce')\<close> on one cell. How pandas reads a number out of a
  string is not part of this program: the reader is the parameter \<open>parse\<close>.
\<close>

fun to_numeric :: "(string \<Rightarrow> int option) \<Rightarrow> cell \<Rightarrow> cell" where
  "to_numeric parse (Num n) = Num n"
| "to_numeric parse (Str s) = (case parse s of Some n \<Rightarrow> Num n | None \<Rightarrow> NaN)"
| "to_numeric parse NaN = NaN"

text \<open>\<open>df.dropna(subset=...)\<close>: the rows with no missing value under the given labels.\<close>

definition dropna :: "dataframe \<Rightarrow> string list \<Rightarrow> dataframe" where
  "dropna df labels =
     df\<lparr>rows := filter (\<lambda>r. list_all (\<lambda>c. list_all (\<lambda>i. cell_at i r \<noteq> NaN)
                                              (positions c (columns df))) labels)
                  (rows df)\<rparr>"

text \<open>
  \<open>_clean_crime_data\<close>. When two columns are both renamed to \<open>annee\<close>, \<open>df['annee']\<close> is a
  table and \<open>to_numeric\<close> raises \<open>TypeError\<close>.
\<close>

definition clean_crime_data :: "(string \<Rightarrow> int option) \<Rightarrow> dataframe \<Rightarrow> error + dataframe" where
  "clean_crime_data parse df =
     (let df1 = df\<lparr>columns := map rename_col (columns df)\<rparr>
      in bind_err
           (if ''annee'' \<in> set (columns df1) then
              (case positions ''annee'' (columns df1) of
                 [i] \<Rightarrow> Inr (df1\<lparr>rows := map (\<lambda>r. r[i := to_numeric parse (cell_at i r)])
                                             (rows df1)\<rparr>)
               | _ \<Rightarrow> Inl TypeError)
            else Inr df1)
           (\<lambda>df2.
              let critical_cols =
                    filter (\<lambda>col. col \<in> set (columns df2)) [''code_dept'', ''annee'', ''classe'']
              in if critical_cols \<noteq> [] then Inr (dropna df2 critical_cols) else Inr df2))"

section \<open>The summary for the assistant\<close>

text \<open>Decimal digits of a number, as \<open>str\<close> and the format \<open>.0f\<close> print an integer.\<close>

fun digits :: "nat \<Rightarrow> string" where
  "digits n =
     (if n < 10 then [''0123456789'' ! n]
      else digits (n div 10) @ [''0123456789'' ! (n mod 10)])"

definition str_int :: "int \<Rightarrow> string" where
  "str_int n = (if n < 0 then ''-'' @ digits (nat (- n)) else digits (nat n))"

text \<open>The format \<open>,.0f\<close>: a comma before every group of three digits, from the right.\<close>

fun commas :: "string \<Rightarrow> string" where
  "commas (a # b # c # d # ds) = a # b # c # CHR '','' # commas (d # ds)"
| "commas ds = ds"

definition str_thousands :: "int \<Rightarrow> string" where
  "str_thousands n =
     (if n < 0 then ''-'' @ rev (commas (rev (digits (nat (- n)))))
      else rev (commas (rev (digits (nat n)))))"

fun join :: "string \<Rightarrow> string list \<Rightarrow> string" where
  "join sep [] = []"
| "join sep [x] = x"
| "join sep (x # y # ys) = x @ sep @ join sep (y # ys)"

definition column :: "nat \<Rightarrow> dataframe \<Rightarrow> cell list" where
  "column i df = map (cell_at i) (rows df)"

text \<open>\<open>Series.nunique()\<close>: the distinct values that are not missing.\<close>

definition nunique :: "cell list \<Rightarrow> nat" where
  "nunique cs = length (remdups (filter (\<lambda>c. c \<noteq> NaN) cs))"

text \<open>
  The first fragment, from \<open>years = df['annee'].unique()\<close>. \<open>min\<close> of an empty array
  raises \<open>ValueError\<close>; comparing a string with a number raises \<open>TypeError\<close>; a string
  does not take the format \<open>.0f\<close> (\<open>ValueError\<close>); a missing year makes both ends \<open>nan\<close>.
\<close>

definition period :: "cell list \<Rightarrow> error + string" where
  "period years =
     (if years = [] then Inl ValueError
      else if list_ex is_Str years then
        (if list_all is_Str years then Inl ValueError else Inl TypeError)
      else if NaN \<in> set years then Inr (''P'' @ e_acute @ ''riode: nan - nan'')
      else (let ns = map num_of years
            in Inr (''P'' @ e_acute @ ''riode: '' @ str_int (fold min ns (hd ns))
                      @ '' - '' @ str_int (fold max ns (hd ns)))))"

text \<open>\<open>df[month_cols].sum().sum()\<close>: the sums of the columns, added up.\<close>

definition columns_total :: "dataframe \<Rightarrow> string list \<Rightarrow> error + int" where
  "columns_total df cols =
     (let idx = List.map_filter (\<lambda>c. index_of c (columns df)) cols
      in if list_ex (\<lambda>i. has_str i (rows df)) idx then Inl TypeError
         else Inr (sum_list (map (\<lambda>i. group_sum i (rows df)) idx)))"

definition get_data_summary :: "dataframe \<Rightarrow> error + string" where
  "get_data_summary df =
     bind_err
       (case index_of ''annee'' (columns df) of
          None \<Rightarrow> Inr []
        | Some i \<Rightarrow> bind_err (period (remdups (column i df))) (\<lambda>s. Inr [s]))
       (\<lambda>summary1.
     let summary2 = summary1 @
           (case index_of ''code_dept'' (columns df) of
              None \<Rightarrow> []
            | Some i \<Rightarrow> [''D'' @ e_acute @ ''partements: ''
                           @ str_int (int (nunique (column i df)))])
     in bind_err
       (case index_of ''faits'' (columns df) of
          Some i \<Rightarrow>
            bind_err (sum_cells (column i df))
              (\<lambda>total. Inr (summary2 @ [''Total des faits: '' @ str_thousands total]))
        | None \<Rightarrow>
            if list_ex isdigit (columns df) then
              bind_err (columns_total df (filter isdigit (columns df)))
                (\<lambda>total. Inr (summary2 @ [''Total des faits: '' @ str_thousands total]))
            else Inr summary2)
       (\<lambda>summary3.
     Inr (join '' | ''
            (summary3 @
               (case index_of ''classe'' (columns df) of
                  None \<Rightarrow> []
                | Some i \<Rightarrow> [''Types de crimes: '' @ str_int (int (nunique (column i df)))])))))"

section \<open>Notions used to state the properties\<close>

text \<open>
  The cells that the count column is made of hold no string: the \<open>faits\<close> column when
  the table has one, the month columns otherwise.
\<close>

definition numeric_counts :: "dataframe \<Rightarrow> bool" where
  "numeric_counts df =
     (case index_of ''faits'' (columns df) of
        Some j \<Rightarrow> \<not> has_str j (rows df)
      | None \<Rightarrow> \<not> list_ex (\<lambda>c. case index_of c (columns df) of
                                   Some i \<Rightarrow> has_str i (rows df)
                                 | None \<Rightarrow> False) (month_cols df))"



fun is_Num :: "cell \<Rightarrow> bool" where
  "is_Num (Num n) = True"
| "is_Num c = False"

text \<open>
  A table in canonical form: no label is one the normalisation renames, there is at most
  one \<open>annee\<close> column and it holds numbers, and no row misses a value under
  \<open>code_dept\<close>, \<open>annee\<close> or \<open>classe\<close>.
\<close>

definition canonical :: "dataframe \<Rightarrow> bool" where
  "canonical df \<longleftrightarrow>
     list_all (\<lambda>c. rename_col c = c) (columns df)
     \<and> length (positions ''annee'' (columns df)) \<le> 1
     \<and> list_all (\<lambda>r. list_all (\<lambda>i. is_Num (cell_at i r)) (positions ''annee'' (columns df))
                     \<and> list_all (\<lambda>c. list_all (\<lambda>i. cell_at i r \<noteq> NaN)
                                             (positions c (columns df)))
                          [''code_dept'', ''annee'', ''classe''])
         (rows df)"

text \<open>
  A row that \<open>dropna\<close> keeps in the normalisation: no value is missing under the critical
  labels that the table has.
\<close>

definition complete_row :: "dataframe \<Rightarrow> cell list \<Rightarrow> bool" where
  "complete_row d r \<longleftrightarrow>
     list_all (\<lambda>c. list_all (\<lambda>i. cell_at i r \<noteq> NaN) (positions c (columns d)))
       (filter (\<lambda>col. col \<in> set (columns d)) [''code_dept'', ''annee'', ''classe''])"

section \<open>Example tables\<close>

definition canonical_columns :: "string list" where
  "canonical_columns = [''code_dept'', ''departement'', ''annee'', ''classe'', ''faits'']"

definition example_table :: dataframe where
  "example_table =
     \<lparr>columns = canonical_columns,
      rows = [[Str ''75'', Str ''Paris'', Num 2020, Str ''Vols'', Num 100],
              [Str ''75'', Str ''Paris'', Num 2021, Str ''Vols'', Num 150],
              [Str ''13'', Str ''Bouches-du-Rhone'', Num 2020, Str ''Cambriolages'', Num 30],
              [Str ''13'', Str ''Bouches-du-Rhone'', Num 2021, Str ''Vols'', Num 70]]\<rparr>"

text \<open>A year with no recorded fact, followed by a year with 50.\<close>

definition zero_year_table :: dataframe where
  "zero_year_table =
     \<lparr>columns = canonical_columns,
      rows = [[Str ''13'', Str ''X'', Num 2020, Str ''A'', Num 0],
              [Str ''13'', Str ''X'', Num 2021, Str ''A'', Num 50]]\<rparr>"

text \<open>A table with neither a count column nor month columns.\<close>

definition bare_table :: dataframe where
  "bare_table =
     \<lparr>columns = [''code_dept'', ''departement'', ''annee'', ''classe''],
      rows = [[Str ''75'', Str ''Paris'', Num 2020, Str ''Vols''],
              [Str ''13'', Str ''X'', Num 2020, Str ''Vols'']]\<rparr>"

text \<open>A table with no department name and no year.\<close>

definition no_name_table :: dataframe where
  "no_name_table =
     \<lparr>columns = [''code_dept'', ''classe'', ''faits''],
      rows = [[Str ''75'', Str ''Vols'', Num 3]]\<rparr>"

text \<open>A row whose department name is missing.\<close>

definition missing_name_table :: dataframe where
  "missing_name_table =
     \<lparr>columns = canonical_columns,
      rows = [[Str ''13'', NaN, Num 2020, Str ''A'', Num 5]]\<rparr>"


text \<open>No row at all, under the canonical columns.\<close>

definition empty_table :: dataframe where
  "empty_table = \<lparr>columns = canonical_columns, rows = []\<rparr>"

text \<open>A raw table, as downloaded, and a reader of years for it.\<close>

definition raw_table :: dataframe where
  "raw_table =
     \<lparr>columns = [''Code d'' @ e_acute @ ''partement'', ''D'' @ e_acute @ ''partement'',
                 ''Mill'' @ e_acute @ ''sime'', ''Classe'', ''faits''],
      rows = [[Str ''75'', Str ''Paris'', Str ''2020'', Str ''Vols'', Num 100],
              [NaN, Str ''Paris'', Num 2021, Str ''Vols'', Num 3],
              [Str ''13'', Str ''X'', Str ''n/a'', Str ''Vols'', Num 7]]\<rparr>"

definition read_year :: "string \<Rightarrow> int option" where
  "read_year s = (if s = ''2020'' then Some 2020 else if s = ''2021'' then Some 2021 else None)"

section \<open>Auxiliary facts\<close>

lemma sum_list_insort_key:
  "sum_list (map g (insort_key f x xs)) = (g x :: 'b :: comm_monoid_add) + sum_list (map g xs)"
  by (induction xs) (auto simp: ac_simps)

lemma sum_list_sort_key:
  "sum_list (map g (sort_key f xs)) = sum_list (map (g :: 'a \<Rightarrow> 'b :: comm_monoid_add) xs)"
  by (induction xs) (auto simp: sum_list_insort_key)

lemma sum_list_map_rev:
  "sum_list (map g (rev xs)) = sum_list (map (g :: 'a \<Rightarrow> 'b :: comm_monoid_add) xs)"
  by (simp add: rev_map[symmetric] sum_list_rev)

lemma sum_list_sort_desc:
  "sum_list (map g (sort_desc f xs)) = sum_list (map (g :: 'a \<Rightarrow> 'b :: comm_monoid_add) xs)"
  by (simp add: sort_desc_def sum_list_map_rev sum_list_sort_key)


lemma length_sort_desc: "length (sort_desc f xs) = length xs"
  by (simp add: sort_desc_def)


lemma distinct_group_keys: "distinct (group_keys ks rs)"
  by (simp add: group_keys_def)

lemma set_group_keys:
  "set (group_keys ks rs) = {k \<in> key_of ks ` set rs. NaN \<notin> set k}"
  by (auto simp: group_keys_def)

lemma sum_list_pick:
  "distinct K \<Longrightarrow>
   sum_list (map (\<lambda>k. if key = k then (v::int) else 0) K) = (if key \<in> set K then v else 0)"
  by (induction K) auto

lemma sum_over_keys:
  "distinct K \<Longrightarrow>
   sum_list (map (\<lambda>k. sum_list (map f (filter (\<lambda>r. key r = k) rs))) K)
     = sum_list (map (f :: 'a \<Rightarrow> int) (filter (\<lambda>r. key r \<in> set K) rs))"
proof (induction rs)
  case Nil
  then show ?case by simp
next
  case (Cons r rs)
  have "sum_list (map (\<lambda>k. sum_list (map f (filter (\<lambda>r. key r = k) (r # rs)))) K)
      = sum_list (map (\<lambda>k. (if key r = k then f r else 0)
                          + sum_list (map f (filter (\<lambda>r. key r = k) rs))) K)"
    by (rule arg_cong[where f = sum_list]) (auto intro!: map_cong)
  also have "\<dots> = sum_list (map (\<lambda>k. if key r = k then f r else 0) K)
                 + sum_list (map (\<lambda>k. sum_list (map f (filter (\<lambda>r. key r = k) rs))) K)"
    by (simp add: sum_list_addf)
  also have "\<dots> = (if key r \<in> set K then f r else 0)
                 + sum_list (map f (filter (\<lambda>r. key r \<in> set K) rs))"
    using Cons by (simp add: sum_list_pick)
  finally show ?case by simp
qed

lemma groupby_sum:
  "sum_list (map (\<lambda>(k, g). group_sum j g) (groupby ks rs))
     = group_sum j (filter (\<lambda>r. NaN \<notin> set (key_of ks r)) rs)"
proof -
  have "sum_list (map (\<lambda>(k, g). group_sum j g) (groupby ks rs))
      = sum_list (map (\<lambda>k. sum_list (map (\<lambda>r. num_of (cell_at j r))
                                     (filter (\<lambda>r. key_of ks r = k) rs))) (group_keys ks rs))"
    by (simp add: groupby_def group_sum_def comp_def)
  also have "\<dots> = sum_list (map (\<lambda>r. num_of (cell_at j r))
                        (filter (\<lambda>r. key_of ks r \<in> set (group_keys ks rs)) rs))"
    by (rule sum_over_keys) (rule distinct_group_keys)
  also have "filter (\<lambda>r. key_of ks r \<in> set (group_keys ks rs)) rs
           = filter (\<lambda>r. NaN \<notin> set (key_of ks r)) rs"
    by (rule filter_cong) (auto simp: set_group_keys)
  finally show ?thesis by (simp add: group_sum_def)
qed

lemma index_of_None: "index_of c cols = None \<longleftrightarrow> c \<notin> set cols"
  by (induction cols) auto

lemma index_of_Some: "index_of c cols = Some i \<Longrightarrow> i < length cols \<and> cols ! i = c"
  by (induction cols arbitrary: i) (auto split: if_splits)

lemma index_of_append:
  "index_of c (cols @ [d]) =
     (case index_of c cols of Some i \<Rightarrow> Some i
      | None \<Rightarrow> if d = c then Some (length cols) else None)"
  by (induction cols) (auto split: option.splits)

lemma row_sums_length: "row_sums df cols = Inr s \<Longrightarrow> length s = length (rows df)"
  by (auto simp: row_sums_def Let_def split: if_splits)

lemma ensure_faits_Inr:
  assumes "ensure_faits df = Inr df'"
  shows "(''faits'' \<in> set (columns df) \<and> df' = df)
       \<or> (''faits'' \<notin> set (columns df)
          \<and> (\<exists>vs. length vs = length (rows df) \<and> df' = add_column df ''faits'' (map Num vs)))"
proof (cases "''faits'' \<in> set (columns df)")
  case True
  with assms show ?thesis by (simp add: ensure_faits_def)
next
  case False
  show ?thesis
  proof (cases "month_cols df = []")
    case True
    with False assms have "df' = add_column df ''faits'' (map Num (map (\<lambda>r. 1) (rows df)))"
      by (simp add: ensure_faits_def comp_def)
    with False show ?thesis by (metis length_map)
  next
    case nonempty: False
    with False assms obtain s where s: "row_sums df (month_cols df) = Inr s"
      and d: "df' = add_column df ''faits'' (map Num s)"
      by (auto simp: ensure_faits_def split: sum.splits)
    from s have "length s = length (rows df)" by (rule row_sums_length)
    with d False show ?thesis by blast
  qed
qed

lemma cell_at_append:
  "cell_at i r \<noteq> NaN \<Longrightarrow> cell_at i (r @ [v]) = cell_at i r"
  by (auto simp: cell_at_def nth_append split: if_splits)

lemma cell_at_append_lt:
  "i < length r \<Longrightarrow> cell_at i (r @ [v]) = cell_at i r"
  by (auto simp: cell_at_def nth_append)

lemma cell_at_append_last:
  "cell_at (length r) (r @ [v]) = v"
  by (simp add: cell_at_def)

lemma rows_add_column:
  "length vs = length (rows df) \<Longrightarrow>
   rows (add_column df c vs) = map (\<lambda>(r, v). r @ [v]) (zip (rows df) vs)"
  by (simp add: add_column_def)

lemma bind_err_Inr:
  "bind_err m f = Inr y \<longleftrightarrow> (\<exists>x. m = Inr x \<and> f x = Inr y)"
  by (cases m) auto

lemma col_pos_Inr: "col_pos df c = Inr i \<longleftrightarrow> index_of c (columns df) = Some i"
  by (auto simp: col_pos_def split: option.splits)

lemma sum_cells_column:
  "\<not> has_str j (rows df) \<Longrightarrow> sum_cells (column j df) = Inr (group_sum j (rows df))"
  by (simp add: sum_cells_def column_def has_str_def group_sum_def list_ex_iff comp_def)

lemma ensure_faits_keeps_index:
  assumes "ensure_faits df = Inr df'" and "index_of c (columns df) = Some i"
  shows "index_of c (columns df') = Some i"
  using ensure_faits_Inr[OF assms(1)] assms(2)
  by (auto simp: add_column_def index_of_append)

lemma ensure_faits_keeps_cells:
  assumes "ensure_faits df = Inr df'"
    and "list_all (\<lambda>r. cell_at i r \<noteq> NaN) (rows df)"
  shows "list_all (\<lambda>r. cell_at i r \<noteq> NaN) (rows df')"
proof -
  from ensure_faits_Inr[OF assms(1)] show ?thesis
  proof (elim disjE conjE exE)
    assume "df' = df" with assms(2) show ?thesis by simp
  next
    fix vs assume len: "length vs = length (rows df)"
      and d: "df' = add_column df ''faits'' (map Num vs)"
    have "rows df' = map (\<lambda>(r, v). r @ [v]) (zip (rows df) (map Num vs))"
      using len d by (simp add: add_column_def)
    moreover have "\<forall>(r, v) \<in> set (zip (rows df) (map Num vs)). cell_at i (r @ [v]) \<noteq> NaN"
      using assms(2) by (auto simp: list_all_iff cell_at_append dest: set_zip_leftD)
    ultimately show ?thesis by (auto simp: list_all_iff)
  qed
qed

lemma groupby_fst: "map fst (groupby ks rs) = group_keys ks rs"
  by (simp add: groupby_def comp_def)



lemma group_keys_single:
  "k \<in> set (group_keys [i] rs) \<longleftrightarrow>
     (\<exists>r \<in> set rs. k = [cell_at i r] \<and> cell_at i r \<noteq> NaN)"
  by (auto simp: set_group_keys key_of_def)

lemma cell_at_0: "cell_at 0 (x # xs) = x"
  by (simp add: cell_at_def)



lemma filter_if_cases:
  assumes "filter_if flag c v df = Inr f"
  shows "columns f = columns df
       \<and> (\<not> flag \<longrightarrow> f = df)
       \<and> (flag \<longrightarrow> (\<exists>i. index_of c (columns df) = Some i
                      \<and> rows f = filter (\<lambda>r. cell_at i r = v) (rows df)))"
  using assms by (auto simp: filter_if_def filter_eq_def split: if_splits option.splits)












lemma has_str_iff: "has_str i rs \<longleftrightarrow> (\<exists>r \<in> set rs. is_Str (cell_at i r))"
  by (simp add: has_str_def list_ex_iff)

lemma index_of_mem: "c \<in> set cols \<Longrightarrow> \<exists>i. index_of c cols = Some i"
  by (cases "index_of c cols") (auto simp: index_of_None)

lemma index_of_Some_mem: "index_of c cols = Some i \<Longrightarrow> c \<in> set cols"
  using index_of_None[of c cols] by auto

lemma has_str_add_column:
  assumes "list_all (\<lambda>r. length r = n) rs" and "length vs = length rs"
    and "\<not> list_ex is_Str vs"
  shows "\<not> has_str n (map2 (\<lambda>r v. r @ [v]) rs vs)"
proof -
  have "\<And>r v. (r, v) \<in> set (zip rs vs) \<Longrightarrow> \<not> is_Str (cell_at n (r @ [v]))"
  proof -
    fix r v assume rv: "(r, v) \<in> set (zip rs vs)"
    then have "r \<in> set rs" and "v \<in> set vs" by (auto dest: set_zip_leftD set_zip_rightD)
    with assms have "length r = n" and "\<not> is_Str v" by (auto simp: list_all_iff list_ex_iff)
    then show "\<not> is_Str (cell_at n (r @ [v]))" using cell_at_append_last[of r v] by simp
  qed
  then show ?thesis by (auto simp: has_str_iff)
qed

lemma row_sums_numeric:
  assumes "\<not> list_ex (\<lambda>c. case index_of c (columns df) of
                              Some i \<Rightarrow> has_str i (rows df) | None \<Rightarrow> False) cols"
  shows "\<exists>s. row_sums df cols = Inr s \<and> length s = length (rows df)"
proof -
  define idx where "idx = List.map_filter (\<lambda>c. index_of c (columns df)) cols"
  have "\<not> has_str i (rows df)" if "i \<in> set idx" for i
  proof -
    from that obtain c where "c \<in> set cols" "index_of c (columns df) = Some i"
      by (auto simp: idx_def map_filter_def)
    with assms show ?thesis by (auto simp: list_ex_iff)
  qed
  then have "\<not> list_ex (list_ex is_Str) (map (\<lambda>r. map (\<lambda>i. cell_at i r) idx) (rows df))"
    by (auto simp: list_ex_iff has_str_iff)
  then show ?thesis
    by (simp add: row_sums_def idx_def Let_def)
qed

lemma ensure_faits_total:
  assumes wf: "wf_df df" and num: "numeric_counts df"
  shows "\<exists>df' jf. ensure_faits df = Inr df'
           \<and> index_of ''faits'' (columns df') = Some jf
           \<and> \<not> has_str jf (rows df')
           \<and> (columns df' = columns df \<or> columns df' = columns df @ [''faits''])
           \<and> (\<forall>c i. index_of c (columns df) = Some i \<longrightarrow> index_of c (columns df') = Some i)"
proof (cases "index_of ''faits'' (columns df)")
  case (Some j)
  then have "''faits'' \<in> set (columns df)" by (rule index_of_Some_mem)
  then have "ensure_faits df = Inr df" by (simp add: ensure_faits_def)
  moreover have "\<not> has_str j (rows df)" using num Some by (simp add: numeric_counts_def)
  ultimately show ?thesis using Some by auto
next
  case None
  then have nf: "''faits'' \<notin> set (columns df)" by (simp add: index_of_None)
  from num None have nostr: "\<not> list_ex (\<lambda>c. case index_of c (columns df) of
        Some i \<Rightarrow> has_str i (rows df) | None \<Rightarrow> False) (month_cols df)"
    by (simp add: numeric_counts_def)
  have "\<exists>vs. ensure_faits df = Inr (add_column df ''faits'' (map Num vs))
            \<and> length vs = length (rows df)"
  proof (cases "month_cols df = []")
    case True
    then have "ensure_faits df = Inr (add_column df ''faits'' (map Num (map (\<lambda>r. 1) (rows df))))"
      using nf by (simp add: ensure_faits_def comp_def)
    then show ?thesis by (metis length_map)
  next
    case False
    from row_sums_numeric[OF nostr] obtain s where "row_sums df (month_cols df) = Inr s"
      "length s = length (rows df)" by blast
    then show ?thesis using nf False by (auto simp: ensure_faits_def)
  qed
  then obtain vs where e: "ensure_faits df = Inr (add_column df ''faits'' (map Num vs))"
    and len: "length vs = length (rows df)" by blast
  define df' where "df' = add_column df ''faits'' (map Num vs)"
  have cols: "columns df' = columns df @ [''faits'']" by (simp add: df'_def add_column_def)
  have jf: "index_of ''faits'' (columns df') = Some (length (columns df))"
    using None by (simp add: cols index_of_append)
  have "\<not> has_str (length (columns df)) (map2 (\<lambda>r v. r @ [v]) (rows df) (map Num vs))"
  proof (rule has_str_add_column)
    show "list_all (\<lambda>r. length r = length (columns df)) (rows df)"
      using wf by (simp add: wf_df_def)
    show "length (map Num vs) = length (rows df)" using len by simp
    show "\<not> list_ex is_Str (map Num vs)" by (simp add: list_ex_iff)
  qed
  then have ns: "\<not> has_str (length (columns df)) (rows df')"
    by (simp add: df'_def add_column_def)
  have keep: "\<forall>c i. index_of c (columns df) = Some i \<longrightarrow> index_of c (columns df') = Some i"
    by (simp add: cols index_of_append)
  from e jf ns cols keep show ?thesis unfolding df'_def by blast
qed

lemma filter_eq_wf:
  assumes "filter_eq df c v = Inr f" and "wf_df df" and "numeric_counts df"
  shows "wf_df f \<and> numeric_counts f \<and> columns f = columns df"
proof -
  from assms(1) obtain i where f: "f = df\<lparr>rows := filter (\<lambda>r. cell_at i r = v) (rows df)\<rparr>"
    by (auto simp: filter_eq_def split: option.splits)
  have sub: "has_str j (rows f) \<Longrightarrow> has_str j (rows df)" for j
    by (auto simp: f has_str_iff)
  have "wf_df f" using assms(2) by (auto simp: f wf_df_def list_all_iff)
  moreover have "columns f = columns df" by (simp add: f)
  moreover have "numeric_counts f"
    using assms(3) sub
    by (auto simp: numeric_counts_def \<open>columns f = columns df\<close> month_cols_def list_ex_iff
        split: option.splits)
  ultimately show ?thesis by blast
qed

lemma filter_if_total:
  assumes "wf_df df" and "numeric_counts df" and "flag \<longrightarrow> c \<in> set (columns df)"
  shows "\<exists>f. filter_if flag c v df = Inr f \<and> wf_df f \<and> numeric_counts f
            \<and> columns f = columns df"
proof (cases flag)
  case True
  with assms(3) obtain i where "index_of c (columns df) = Some i"
    using index_of_mem by blast
  then obtain f where f: "filter_eq df c v = Inr f" by (simp add: filter_eq_def)
  from filter_eq_wf[OF f assms(1,2)] f True show ?thesis by (simp add: filter_if_def)
next
  case False
  with assms show ?thesis by (simp add: filter_if_def)
qed

lemma pct_change_length: "length (pct_change xs) = length xs"
  by (cases xs) simp_all

lemma pct_change_first: "xs \<noteq> [] \<Longrightarrow> pct_change xs ! 0 = FNaN"
  by (cases xs) simp_all

lemma pct_change_nth:
  "Suc i < length xs \<Longrightarrow>
   pct_change xs ! Suc i = fmap (\<lambda>q. q - 1) (fdiv (xs ! Suc i) (xs ! i))"
  by (cases xs) simp_all

lemma temporal_evolution_of_shape:
  assumes "temporal_evolution_of X = Inr res"
  shows "map ev_evolution_pct res
           = map (fmap (\<lambda>q. q * 100)) (pct_change (map ev_total_faits res))"
proof -
  from assms obtain ia jf where
    res: "res = map2 (\<lambda>(k, g) p. \<lparr>ev_annee = cell_at 0 k,
                                    ev_total_faits = group_sum jf g,
                                    ev_evolution_pct = p\<rparr>)
                  (groupby [ia] (rows X))
                  (map (fmap (\<lambda>q. q * 100))
                     (pct_change (map (\<lambda>(k, g). group_sum jf g) (groupby [ia] (rows X)))))"
    by (auto simp: temporal_evolution_of_def bind_err_Inr Let_def split: if_splits)
  define gs where "gs = groupby [ia] (rows X)"
  define totals where "totals = map (\<lambda>(k, g). group_sum jf g) gs"
  define pcts where "pcts = map (fmap (\<lambda>q. q * 100)) (pct_change totals)"
  have len: "length pcts = length gs" by (simp add: pcts_def totals_def pct_change_length)
  have r: "res = map (\<lambda>((k, g), p). \<lparr>ev_annee = cell_at 0 k,
                                         ev_total_faits = group_sum jf g,
                                         ev_evolution_pct = p\<rparr>) (zip gs pcts)"
    unfolding res gs_def totals_def pcts_def
    by (rule arg_cong[where f = "\<lambda>h. map h _"]) (auto simp: fun_eq_iff)
  have "map ev_total_faits res = map (\<lambda>(k, g). group_sum jf g) (map fst (zip gs pcts))"
    by (simp add: r comp_def case_prod_unfold)
  then have t: "map ev_total_faits res = totals"
    using len by (simp add: totals_def)
  have "map ev_evolution_pct res = map snd (zip gs pcts)"
    by (simp add: r comp_def case_prod_unfold)
  then have "map ev_evolution_pct res = pcts" using len by simp
  then show ?thesis by (simp add: pcts_def t)
qed

lemma temporal_evolution_source:
  assumes "snd (get_temporal_evolution df dc) = Inr res"
  shows "\<exists>X. temporal_evolution_of X = Inr res"
proof (cases "truthy_str dc")
  case True
  with assms show ?thesis
    by (auto simp: get_temporal_evolution_def bind_err_Inr)
next
  case False
  with assms show ?thesis
    by (auto simp: get_temporal_evolution_def split: sum.splits)
qed

lemma scaled_pct:
  "fmap (\<lambda>q. q * 100) (fmap (\<lambda>q. q - 1) (fdiv c p)) =
     (if p = 0 then (if 0 < c then PInf else if c < 0 then NInf else FNaN)
      else Fin ((of_int c / of_int p - 1) * 100))"
  by (simp add: fdiv_def)

lemma department_stats_of_total:
  assumes "index_of ''code_dept'' (columns df) = Some ic"
    and "index_of ''departement'' (columns df) = Some idp"
    and "index_of ''faits'' (columns df) = Some jf"
    and "index_of ''annee'' (columns df) = Some ia"
    and "\<not> has_str jf (rows df)"
  shows "\<exists>res. department_stats_of df = Inr res"
  using assms by (simp add: department_stats_of_def col_pos_def)

lemma temporal_evolution_of_total:
  assumes "index_of ''annee'' (columns df) = Some ia"
    and "index_of ''faits'' (columns df) = Some jf"
    and "\<not> has_str jf (rows df)"
  shows "\<exists>res. temporal_evolution_of df = Inr res"
  using assms by (simp add: temporal_evolution_of_def col_pos_def Let_def)

lemma crime_types_distribution_of_total:
  assumes "index_of ''classe'' (columns df) = Some ic"
    and "index_of ''faits'' (columns df) = Some jf"
    and "\<not> has_str jf (rows df)"
  shows "\<exists>res. crime_types_distribution_of df = Inr res"
  using assms by (simp add: crime_types_distribution_of_def col_pos_def Let_def)

lemma ranked_departments_total:
  assumes "index_of ''code_dept'' (columns df) = Some ic"
    and "index_of ''departement'' (columns df) = Some idp"
    and "index_of ''faits'' (columns df) = Some jf"
    and "\<not> has_str jf (rows df)"
  shows "\<exists>res. ranked_departments df = Inr res"
  using assms by (simp add: ranked_departments_def col_pos_def)

lemma kept_index:
  assumes "c \<in> set cols"
    and "\<forall>c i. index_of c cols = Some i \<longrightarrow> index_of c cols' = Some i"
  shows "\<exists>i. index_of c cols' = Some i"
proof -
  from assms(1) obtain i where "index_of c cols = Some i" using index_of_mem by blast
  with assms(2) show ?thesis by blast
qed

lemma department_stats_total:
  assumes wf: "wf_df df" and num: "numeric_counts df"
    and cd: "''code_dept'' \<in> set (columns df)"
    and dp: "''departement'' \<in> set (columns df)"
    and an: "''annee'' \<in> set (columns df)"
  shows "\<exists>res. snd (get_department_stats df) = Inr res"
proof -
  from ensure_faits_total[OF wf num] obtain df' jf where
    e: "ensure_faits df = Inr df'" and jf: "index_of ''faits'' (columns df') = Some jf"
    and ns: "\<not> has_str jf (rows df')"
    and keep: "\<forall>c i. index_of c (columns df) = Some i \<longrightarrow> index_of c (columns df') = Some i"
    by blast
  from kept_index[OF cd keep] kept_index[OF dp keep] kept_index[OF an keep]
  obtain ic idp ia where
    "index_of ''code_dept'' (columns df') = Some ic"
    "index_of ''departement'' (columns df') = Some idp"
    "index_of ''annee'' (columns df') = Some ia"
    by blast
  from department_stats_of_total[OF this(1,2) jf this(3) ns] obtain res where
    "department_stats_of df' = Inr res" by blast
  with e show ?thesis by (simp add: get_department_stats_def)
qed

lemma department_stats_missing_column:
  assumes wf: "wf_df df" and num: "numeric_counts df"
  shows "''code_dept'' \<notin> set (columns df) \<longrightarrow>
           snd (get_department_stats df) = Inl (KeyError ''code_dept'')"
    and "''code_dept'' \<in> set (columns df) \<and> ''departement'' \<notin> set (columns df) \<longrightarrow>
           snd (get_department_stats df) = Inl (KeyError ''departement'')"
    and "''code_dept'' \<in> set (columns df) \<and> ''departement'' \<in> set (columns df)
           \<and> ''annee'' \<notin> set (columns df) \<longrightarrow>
           snd (get_department_stats df) = Inl (KeyError ''annee'')"
proof -
  from ensure_faits_total[OF wf num] obtain df' jf where
    e: "ensure_faits df = Inr df'" and jf: "index_of ''faits'' (columns df') = Some jf"
    and cols: "columns df' = columns df \<or> columns df' = columns df @ [''faits'']"
    and keep: "\<forall>c i. index_of c (columns df) = Some i \<longrightarrow> index_of c (columns df') = Some i"
    by blast
  have s: "snd (get_department_stats df) = department_stats_of df'"
    using e by (simp add: get_department_stats_def)
  have absent: "index_of c (columns df') = None"
    if "c \<notin> set (columns df)" "c \<noteq> ''faits''" for c
    using that cols by (auto simp: index_of_None)
  have present: "\<exists>i. index_of c (columns df') = Some i" if "c \<in> set (columns df)" for c
    using that keep by (rule kept_index)
  show "''code_dept'' \<notin> set (columns df) \<longrightarrow>
           snd (get_department_stats df) = Inl (KeyError ''code_dept'')"
    using absent[of "''code_dept''"] by (auto simp: s department_stats_of_def col_pos_def)
  show "''code_dept'' \<in> set (columns df) \<and> ''departement'' \<notin> set (columns df) \<longrightarrow>
           snd (get_department_stats df) = Inl (KeyError ''departement'')"
    using absent[of "''departement''"] present[of "''code_dept''"]
    by (auto simp: s department_stats_of_def col_pos_def)
  show "''code_dept'' \<in> set (columns df) \<and> ''departement'' \<in> set (columns df)
           \<and> ''annee'' \<notin> set (columns df) \<longrightarrow>
           snd (get_department_stats df) = Inl (KeyError ''annee'')"
    using absent[of "''annee''"] present[of "''code_dept''"] present[of "''departement''"] jf
    by (auto simp: s department_stats_of_def col_pos_def)
qed

lemma distribution_total:
  assumes wf: "wf_df df" and num: "numeric_counts df"
    and cl: "''classe'' \<in> set (columns df)"
    and cd: "truthy_str dc \<longrightarrow> ''code_dept'' \<in> set (columns df)"
    and an: "truthy_int y \<longrightarrow> ''annee'' \<in> set (columns df)"
  shows "\<exists>res. snd (get_crime_types_distribution df dc y) = Inr res"
proof -
  from filter_if_total[OF wf num cd, of "Str (str_val dc)"] obtain g where
    g: "filter_if (truthy_str dc) ''code_dept'' (Str (str_val dc)) df = Inr g"
    and wfg: "wf_df g" and numg: "numeric_counts g" and cg: "columns g = columns df"
    by blast
  from an cg have an': "truthy_int y \<longrightarrow> ''annee'' \<in> set (columns g)" by simp
  from filter_if_total[OF wfg numg an', of "Num (int_val y)"] obtain f where
    f: "filter_if (truthy_int y) ''annee'' (Num (int_val y)) g = Inr f"
    and wff: "wf_df f" and numf: "numeric_counts f" and cf: "columns f = columns g"
    by blast
  from g f have flt: "filtered df dc y = Inr f" by (simp add: filtered_def)
  from ensure_faits_total[OF wff numf] obtain f' jf where
    e: "ensure_faits f = Inr f'" and jf: "index_of ''faits'' (columns f') = Some jf"
    and ns: "\<not> has_str jf (rows f')"
    and keep: "\<forall>c i. index_of c (columns f) = Some i \<longrightarrow> index_of c (columns f') = Some i"
    by blast
  from cl cf cg have "''classe'' \<in> set (columns f)" by simp
  from kept_index[OF this keep] obtain ic where "index_of ''classe'' (columns f') = Some ic"
    by blast
  from crime_types_distribution_of_total[OF this jf ns] obtain res where
    "crime_types_distribution_of f' = Inr res" by blast
  with flt e show ?thesis by (simp add: get_crime_types_distribution_def)
qed

lemma top_departments_total:
  assumes wf: "wf_df df" and num: "numeric_counts df"
    and cd: "''code_dept'' \<in> set (columns df)"
    and dp: "''departement'' \<in> set (columns df)"
    and an: "truthy_int y \<longrightarrow> ''annee'' \<in> set (columns df)"
  shows "\<exists>res. snd (get_top_departments df n y) = Inr res"
proof -
  from filter_if_total[OF wf num an, of "Num (int_val y)"] obtain f where
    f: "filter_if (truthy_int y) ''annee'' (Num (int_val y)) df = Inr f"
    and wff: "wf_df f" and numf: "numeric_counts f" and cf: "columns f = columns df"
    by blast
  from ensure_faits_total[OF wff numf] obtain f' jf where
    e: "ensure_faits f = Inr f'" and jf: "index_of ''faits'' (columns f') = Some jf"
    and ns: "\<not> has_str jf (rows f')"
    and keep: "\<forall>c i. index_of c (columns f) = Some i \<longrightarrow> index_of c (columns f') = Some i"
    by blast
  from cd dp cf have "''code_dept'' \<in> set (columns f)" "''departement'' \<in> set (columns f)"
    by simp_all
  from kept_index[OF this(1) keep] kept_index[OF this(2) keep] obtain ic idp where
    "index_of ''code_dept'' (columns f') = Some ic"
    "index_of ''departement'' (columns f') = Some idp"
    by blast
  from ranked_departments_total[OF this jf ns] obtain ranked where
    "ranked_departments f' = Inr ranked" by blast
  with f e show ?thesis by (simp add: get_top_departments_def)
qed

lemma rename_col_idem: "rename_col (rename_col c) = rename_col c"
  by (simp add: rename_col_def column_mapping_def e_acute_def)

lemma to_numeric_idem: "to_numeric p (to_numeric p c) = to_numeric p c"
  by (cases c) (auto split: option.splits)

lemma update_year_idem:
  "r[i := to_numeric p (cell_at i (r[i := to_numeric p (cell_at i r)]))]
     = r[i := to_numeric p (cell_at i r)]"
  by (simp add: cell_at_def to_numeric_idem)

lemma update_year_Num:
  "is_Num (cell_at i r) \<Longrightarrow> r[i := to_numeric p (cell_at i r)] = r"
proof -
  assume "is_Num (cell_at i r)"
  then obtain n where n: "cell_at i r = Num n" by (cases "cell_at i r") auto
  then have "i < length r" and "r ! i = Num n" by (auto simp: cell_at_def split: if_splits)
  then have "r[i := Num n] = r" by (metis list_update_id)
  with n show ?thesis by simp
qed

lemma positions_nonempty: "c \<in> set cols \<longleftrightarrow> positions c cols \<noteq> []"
  by (auto simp: positions_def filter_empty_conv in_set_conv_nth)

lemma clean_fixed:
  assumes ren: "list_all (\<lambda>c. rename_col c = c) (columns d)"
    and yr: "''annee'' \<in> set (columns d) \<longrightarrow>
               (\<exists>i. positions ''annee'' (columns d) = [i]
                    \<and> (\<forall>r \<in> set (rows d). r[i := to_numeric p (cell_at i r)] = r))"
    and full: "\<forall>r \<in> set (rows d). complete_row d r"
  shows "clean_crime_data p d = Inr d"
proof -
  have c1: "d\<lparr>columns := map rename_col (columns d)\<rparr> = d"
    using ren by (simp add: list_all_iff map_idI)
  have a: "(if ''annee'' \<in> set (columns d) then
              (case positions ''annee'' (columns d) of
                 [i] \<Rightarrow> Inr (d\<lparr>rows := map (\<lambda>r. r[i := to_numeric p (cell_at i r)]) (rows d)\<rparr>)
               | _ \<Rightarrow> Inl TypeError)
            else Inr d) = Inr d"
  proof (cases "''annee'' \<in> set (columns d)")
    case True
    with yr obtain i where i: "positions ''annee'' (columns d) = [i]"
      and fx: "\<forall>r \<in> set (rows d). r[i := to_numeric p (cell_at i r)] = r" by blast
    from fx have "map (\<lambda>r. r[i := to_numeric p (cell_at i r)]) (rows d) = rows d"
      by (simp add: map_idI)
    with True i show ?thesis by simp
  next
    case False
    then show ?thesis by simp
  qed
  have b: "dropna d (filter (\<lambda>col. col \<in> set (columns d)) [''code_dept'', ''annee'', ''classe'']) = d"
  proof -
    have "filter (\<lambda>r. complete_row d r) (rows d) = rows d"
      using full by (simp add: filter_True)
    then show ?thesis by (simp add: dropna_def complete_row_def)
  qed
  show ?thesis
    unfolding clean_crime_data_def Let_def c1 a using b by simp
qed

lemma clean_result:
  assumes "clean_crime_data p df = Inr df'"
  shows "list_all (\<lambda>c. rename_col c = c) (columns df')"
    and "''annee'' \<in> set (columns df') \<longrightarrow>
           (\<exists>i. positions ''annee'' (columns df') = [i]
                \<and> (\<forall>r \<in> set (rows df'). r[i := to_numeric p (cell_at i r)] = r))"
    and "\<forall>r \<in> set (rows df'). complete_row df' r"
proof -
  define df1 where "df1 = df\<lparr>columns := map rename_col (columns df)\<rparr>"
  from assms obtain df2 where
    a: "(if ''annee'' \<in> set (columns df1) then
              (case positions ''annee'' (columns df1) of
                 [i] \<Rightarrow> Inr (df1\<lparr>rows := map (\<lambda>r. r[i := to_numeric p (cell_at i r)]) (rows df1)\<rparr>)
               | _ \<Rightarrow> Inl TypeError)
            else Inr df1) = Inr df2"
    and b: "df' = dropna df2 (filter (\<lambda>col. col \<in> set (columns df2))
                                [''code_dept'', ''annee'', ''classe''])"
    unfolding clean_crime_data_def Let_def df1_def[symmetric] bind_err_Inr
    by (auto simp: dropna_def split: if_splits)
  have cols2: "columns df2 = columns df1"
    using a by (auto split: if_splits list.splits)
  have cols': "columns df' = columns df2" by (simp add: b dropna_def)
  have cols: "columns df' = map rename_col (columns df)"
    by (simp add: cols' cols2 df1_def)
  show "list_all (\<lambda>c. rename_col c = c) (columns df')"
    by (simp add: cols list_all_iff rename_col_idem)
  have sub: "set (rows df') \<subseteq> set (rows df2)" by (auto simp: b dropna_def)
  show "''annee'' \<in> set (columns df') \<longrightarrow>
           (\<exists>i. positions ''annee'' (columns df') = [i]
                \<and> (\<forall>r \<in> set (rows df'). r[i := to_numeric p (cell_at i r)] = r))"
  proof
    assume "''annee'' \<in> set (columns df')"
    then have m: "''annee'' \<in> set (columns df1)" by (simp add: cols' cols2)
    with a obtain i where i: "positions ''annee'' (columns df1) = [i]"
      and r2: "df2 = df1\<lparr>rows := map (\<lambda>r. r[i := to_numeric p (cell_at i r)]) (rows df1)\<rparr>"
      by (auto split: list.splits)
    have "\<forall>r \<in> set (rows df2). r[i := to_numeric p (cell_at i r)] = r"
      by (auto simp: r2 update_year_idem)
    with sub have "\<forall>r \<in> set (rows df'). r[i := to_numeric p (cell_at i r)] = r" by blast
    with i show "\<exists>i. positions ''annee'' (columns df') = [i]
                \<and> (\<forall>r \<in> set (rows df'). r[i := to_numeric p (cell_at i r)] = r)"
      by (simp add: cols' cols2)
  qed
  show "\<forall>r \<in> set (rows df'). complete_row df' r"
    by (auto simp: b dropna_def complete_row_def)
qed

lemma cell_ord_inj: "cell_ord a = cell_ord b \<Longrightarrow> a = b"
  by (cases a; cases b) (simp_all add: cell_ord_def)

lemma sorted_wrt_distinct:
  "sorted_wrt R xs \<Longrightarrow> distinct xs \<Longrightarrow> sorted_wrt (\<lambda>a b. R a b \<and> a \<noteq> b) xs"
  by (induction xs) auto

lemma single_key_less:
  assumes "map cell_ord [a] \<le> map cell_ord [b]" and "[a] \<noteq> [b]"
  shows "cell_ord a < cell_ord b"
proof -
  from assms(1) have "cell_ord a \<le> cell_ord b" by (auto simp: le_less)
  moreover from assms(2) have "cell_ord a \<noteq> cell_ord b" using cell_ord_inj by auto
  ultimately show ?thesis by simp
qed

lemma group_keys_single_ascending:
  "sorted_wrt (\<lambda>a b. cell_ord a < cell_ord b) (map (cell_at 0) (group_keys [i] rs))"
proof -
  have "sorted (map (map cell_ord) (group_keys [i] rs))"
    by (simp add: group_keys_def)
  then have "sorted_wrt (\<lambda>a b. map cell_ord a \<le> map cell_ord b) (group_keys [i] rs)"
    by (simp add: sorted_wrt_map)
  then have "sorted_wrt (\<lambda>a b. map cell_ord a \<le> map cell_ord b \<and> a \<noteq> b) (group_keys [i] rs)"
    using distinct_group_keys by (rule sorted_wrt_distinct)
  then have "sorted_wrt (\<lambda>a b. cell_ord (cell_at 0 a) < cell_ord (cell_at 0 b))
               (group_keys [i] rs)"
  proof (rule sorted_wrt_mono_rel[rotated])
    fix a b
    assume a: "a \<in> set (group_keys [i] rs)" and b: "b \<in> set (group_keys [i] rs)"
      and le: "map cell_ord a \<le> map cell_ord b \<and> a \<noteq> b"
    from a obtain x where x: "a = [x]" by (auto simp: group_keys_single)
    from b obtain y where y: "b = [y]" by (auto simp: group_keys_single)
    from le have "cell_ord x < cell_ord y"
      unfolding x y by (intro single_key_less) simp_all
    then show "cell_ord (cell_at 0 a) < cell_ord (cell_at 0 b)"
      by (simp add: x y cell_at_0)
  qed
  then show ?thesis by (simp add: sorted_wrt_map)
qed

lemma cell_ord_Num: "cell_ord (Num a) < cell_ord (Num b) \<longleftrightarrow> a < b"
  by (simp add: cell_ord_def)

lemma temporal_evolution_of_props:
  assumes r: "temporal_evolution_of f = Inr res"
    and ia: "index_of ''annee'' (columns f) = Some ia"
    and jf: "index_of ''faits'' (columns f) = Some jf"
  shows "map ev_annee res = map (cell_at 0) (group_keys [ia] (rows f))"
    and "sorted_wrt (\<lambda>a b. cell_ord (ev_annee a) < cell_ord (ev_annee b)) res"
    and "set (map ev_annee res)
           = {cell_at ia r | r. r \<in> set (rows f) \<and> cell_at ia r \<noteq> NaN}"
    and "\<forall>row \<in> set res.
           ev_total_faits row = group_sum jf (filter (\<lambda>r. cell_at ia r = ev_annee row) (rows f))"
proof -
  define gs where "gs = groupby [ia] (rows f)"
  define totals where "totals = map (\<lambda>(k, g). group_sum jf g) gs"
  define pcts where "pcts = map (fmap (\<lambda>q. q * 100)) (pct_change totals)"
  define row_of where "row_of = (\<lambda>((k, g), p). \<lparr>ev_annee = cell_at 0 k,
                                         ev_total_faits = group_sum jf g,
                                         ev_evolution_pct = p\<rparr>)"
  from r have res: "res = map2 (\<lambda>(k, g) p. \<lparr>ev_annee = cell_at 0 k,
                                    ev_total_faits = group_sum jf g,
                                    ev_evolution_pct = p\<rparr>) gs pcts"
    by (auto simp: temporal_evolution_of_def col_pos_def ia jf Let_def gs_def totals_def
          pcts_def split: if_splits)
  have len: "length pcts = length gs" by (simp add: pcts_def totals_def pct_change_length)
  have r': "res = map row_of (zip gs pcts)"
    unfolding res row_of_def
    by (rule arg_cong[where f = "\<lambda>h. map h _"]) (auto simp: fun_eq_iff)
  have "map ev_annee res = map (cell_at 0) (map fst (map fst (zip gs pcts)))"
    by (simp add: r' row_of_def comp_def case_prod_unfold)
  also have "map fst (zip gs pcts) = gs" using len by simp
  also have "map fst gs = group_keys [ia] (rows f)" by (simp add: gs_def groupby_fst)
  finally show years: "map ev_annee res = map (cell_at 0) (group_keys [ia] (rows f))" .
  have "sorted_wrt (\<lambda>a b. cell_ord a < cell_ord b) (map ev_annee res)"
    unfolding years by (rule group_keys_single_ascending)
  then show "sorted_wrt (\<lambda>a b. cell_ord (ev_annee a) < cell_ord (ev_annee b)) res"
    by (simp add: sorted_wrt_map)
  have "set (map ev_annee res) = cell_at 0 ` set (group_keys [ia] (rows f))"
    by (simp only: years set_map)
  also have "\<dots> = {cell_at ia r | r. r \<in> set (rows f) \<and> cell_at ia r \<noteq> NaN}"
  proof (rule set_eqI, rule iffI)
    fix x assume "x \<in> cell_at 0 ` set (group_keys [ia] (rows f))"
    then obtain k where "k \<in> set (group_keys [ia] (rows f))" and x: "x = cell_at 0 k"
      by blast
    then obtain r where "r \<in> set (rows f)" "k = [cell_at ia r]" "cell_at ia r \<noteq> NaN"
      unfolding group_keys_single by blast
    then show "x \<in> {cell_at ia r | r. r \<in> set (rows f) \<and> cell_at ia r \<noteq> NaN}"
      using x by (auto simp: cell_at_0)
  next
    fix x assume "x \<in> {cell_at ia r | r. r \<in> set (rows f) \<and> cell_at ia r \<noteq> NaN}"
    then obtain r where r: "r \<in> set (rows f)" "cell_at ia r \<noteq> NaN"
      and x: "x = cell_at ia r" by blast
    from r have "[cell_at ia r] \<in> set (group_keys [ia] (rows f))"
      unfolding group_keys_single by blast
    moreover have "x = cell_at 0 [cell_at ia r]" by (simp add: x cell_at_0)
    ultimately show "x \<in> cell_at 0 ` set (group_keys [ia] (rows f))"
      by (rule image_eqI[rotated])
  qed
  finally show "set (map ev_annee res)
           = {cell_at ia r | r. r \<in> set (rows f) \<and> cell_at ia r \<noteq> NaN}" .
  show "\<forall>row \<in> set res.
           ev_total_faits row = group_sum jf (filter (\<lambda>r. cell_at ia r = ev_annee row) (rows f))"
  proof
    fix row assume "row \<in> set res"
    then obtain kg p where kgp: "(kg, p) \<in> set (zip gs pcts)" and row: "row = row_of (kg, p)"
      unfolding r' by auto
    from kgp have "kg \<in> set gs" by (rule set_zip_leftD)
    then obtain k where k: "k \<in> set (group_keys [ia] (rows f))"
      and kg: "kg = (k, filter (\<lambda>r. key_of [ia] r = k) (rows f))"
      unfolding gs_def groupby_def by auto
    from k obtain a where ka: "k = [a]" by (auto simp: group_keys_single)
    have "filter (\<lambda>r. key_of [ia] r = k) (rows f) = filter (\<lambda>r. cell_at ia r = a) (rows f)"
      by (simp add: ka key_of_def)
    then show "ev_total_faits row
        = group_sum jf (filter (\<lambda>r. cell_at ia r = ev_annee row) (rows f))"
      by (simp add: row kg row_of_def ka cell_at_0)
  qed
qed

lemma evolution_snd:
  "snd (get_temporal_evolution df dc) =
     bind_err (filter_if (truthy_str dc) ''code_dept'' (Str (str_val dc)) df) (\<lambda>sel.
       bind_err (ensure_faits sel) temporal_evolution_of)"
  by (cases "ensure_faits df") (simp_all add: get_temporal_evolution_def filter_if_def)

lemma filter_if_missing:
  "flag \<Longrightarrow> c \<notin> set (columns df) \<Longrightarrow> filter_if flag c v df = Inl (KeyError c)"
  by (simp add: filter_if_def filter_eq_def index_of_None[symmetric])

lemma ensure_faits_absent:
  assumes wf: "wf_df f" and num: "numeric_counts f"
  shows "\<exists>f' jf. ensure_faits f = Inr f'
           \<and> index_of ''faits'' (columns f') = Some jf
           \<and> \<not> has_str jf (rows f')
           \<and> (\<forall>c. c \<in> set (columns f) \<longrightarrow> (\<exists>i. index_of c (columns f') = Some i))
           \<and> (\<forall>c. c \<notin> set (columns f) \<and> c \<noteq> ''faits'' \<longrightarrow> index_of c (columns f') = None)"
proof -
  from ensure_faits_total[OF wf num] obtain f' jf where
    e: "ensure_faits f = Inr f'" and jf: "index_of ''faits'' (columns f') = Some jf"
    and ns: "\<not> has_str jf (rows f')"
    and cols: "columns f' = columns f \<or> columns f' = columns f @ [''faits'']"
    and keep: "\<forall>c i. index_of c (columns f) = Some i \<longrightarrow> index_of c (columns f') = Some i"
    by blast
  have absent: "index_of c (columns f') = None"
    if "c \<notin> set (columns f) \<and> c \<noteq> ''faits''" for c
    using that cols by (auto simp: index_of_None)
  have present: "\<exists>i. index_of c (columns f') = Some i" if "c \<in> set (columns f)" for c
    using that keep by (rule kept_index)
  from e jf ns absent present show ?thesis by blast
qed

lemma evolution_missing_column:
  assumes wf: "wf_df df" and num: "numeric_counts df"
  shows "truthy_str dc \<and> ''code_dept'' \<notin> set (columns df) \<longrightarrow>
           snd (get_temporal_evolution df dc) = Inl (KeyError ''code_dept'')"
    and "(truthy_str dc \<longrightarrow> ''code_dept'' \<in> set (columns df))
           \<and> ''annee'' \<notin> set (columns df) \<longrightarrow>
           snd (get_temporal_evolution df dc) = Inl (KeyError ''annee'')"
proof -
  show "truthy_str dc \<and> ''code_dept'' \<notin> set (columns df) \<longrightarrow>
           snd (get_temporal_evolution df dc) = Inl (KeyError ''code_dept'')"
    by (simp add: evolution_snd filter_if_missing)
  show "(truthy_str dc \<longrightarrow> ''code_dept'' \<in> set (columns df))
           \<and> ''annee'' \<notin> set (columns df) \<longrightarrow>
           snd (get_temporal_evolution df dc) = Inl (KeyError ''annee'')"
  proof
    assume a: "(truthy_str dc \<longrightarrow> ''code_dept'' \<in> set (columns df))
           \<and> ''annee'' \<notin> set (columns df)"
    then have cd: "truthy_str dc \<longrightarrow> ''code_dept'' \<in> set (columns df)" by blast
    from filter_if_total[OF wf num cd, of "Str (str_val dc)"] obtain f where
      f: "filter_if (truthy_str dc) ''code_dept'' (Str (str_val dc)) df = Inr f"
      and wff: "wf_df f" and numf: "numeric_counts f" and cf: "columns f = columns df"
      by blast
    from ensure_faits_absent[OF wff numf] obtain f' where
      e: "ensure_faits f = Inr f'"
      and absent: "\<forall>c. c \<notin> set (columns f) \<and> c \<noteq> ''faits'' \<longrightarrow> index_of c (columns f') = None"
      by blast
    from a cf absent have "index_of ''annee'' (columns f') = None" by simp
    then have "temporal_evolution_of f' = Inl (KeyError ''annee'')"
      by (simp add: temporal_evolution_of_def col_pos_def)
    with f e show "snd (get_temporal_evolution df dc) = Inl (KeyError ''annee'')"
      by (simp add: evolution_snd)
  qed
qed

lemma distribution_missing_column:
  assumes wf: "wf_df df" and num: "numeric_counts df"
  shows "truthy_str dc \<and> ''code_dept'' \<notin> set (columns df) \<longrightarrow>
           snd (get_crime_types_distribution df dc y) = Inl (KeyError ''code_dept'')"
    and "(truthy_str dc \<longrightarrow> ''code_dept'' \<in> set (columns df))
           \<and> truthy_int y \<and> ''annee'' \<notin> set (columns df) \<longrightarrow>
           snd (get_crime_types_distribution df dc y) = Inl (KeyError ''annee'')"
    and "(truthy_str dc \<longrightarrow> ''code_dept'' \<in> set (columns df))
           \<and> (truthy_int y \<longrightarrow> ''annee'' \<in> set (columns df))
           \<and> ''classe'' \<notin> set (columns df) \<longrightarrow>
           snd (get_crime_types_distribution df dc y) = Inl (KeyError ''classe'')"
proof -
  show "truthy_str dc \<and> ''code_dept'' \<notin> set (columns df) \<longrightarrow>
           snd (get_crime_types_distribution df dc y) = Inl (KeyError ''code_dept'')"
    by (simp add: get_crime_types_distribution_def filtered_def filter_if_missing)
  show "(truthy_str dc \<longrightarrow> ''code_dept'' \<in> set (columns df))
           \<and> truthy_int y \<and> ''annee'' \<notin> set (columns df) \<longrightarrow>
           snd (get_crime_types_distribution df dc y) = Inl (KeyError ''annee'')"
  proof
    assume a: "(truthy_str dc \<longrightarrow> ''code_dept'' \<in> set (columns df))
           \<and> truthy_int y \<and> ''annee'' \<notin> set (columns df)"
    then have cd: "truthy_str dc \<longrightarrow> ''code_dept'' \<in> set (columns df)" by blast
    from filter_if_total[OF wf num cd, of "Str (str_val dc)"] obtain g where
      g: "filter_if (truthy_str dc) ''code_dept'' (Str (str_val dc)) df = Inr g"
      and cg: "columns g = columns df"
      by blast
    from a cg have "filter_if (truthy_int y) ''annee'' (Num (int_val y)) g
        = Inl (KeyError ''annee'')"
      by (simp add: filter_if_missing)
    with g show "snd (get_crime_types_distribution df dc y) = Inl (KeyError ''annee'')"
      by (simp add: get_crime_types_distribution_def filtered_def)
  qed
  show "(truthy_str dc \<longrightarrow> ''code_dept'' \<in> set (columns df))
           \<and> (truthy_int y \<longrightarrow> ''annee'' \<in> set (columns df))
           \<and> ''classe'' \<notin> set (columns df) \<longrightarrow>
           snd (get_crime_types_distribution df dc y) = Inl (KeyError ''classe'')"
  proof
    assume a: "(truthy_str dc \<longrightarrow> ''code_dept'' \<in> set (columns df))
           \<and> (truthy_int y \<longrightarrow> ''annee'' \<in> set (columns df))
           \<and> ''classe'' \<notin> set (columns df)"
    then have cd: "truthy_str dc \<longrightarrow> ''code_dept'' \<in> set (columns df)" by blast
    from filter_if_total[OF wf num cd, of "Str (str_val dc)"] obtain g where
      g: "filter_if (truthy_str dc) ''code_dept'' (Str (str_val dc)) df = Inr g"
      and wfg: "wf_df g" and numg: "numeric_counts g" and cg: "columns g = columns df"
      by blast
    from a cg have an': "truthy_int y \<longrightarrow> ''annee'' \<in> set (columns g)" by simp
    from filter_if_total[OF wfg numg an', of "Num (int_val y)"] obtain f where
      f: "filter_if (truthy_int y) ''annee'' (Num (int_val y)) g = Inr f"
      and wff: "wf_df f" and numf: "numeric_counts f" and cf: "columns f = columns g"
      by blast
    from g f have flt: "filtered df dc y = Inr f" by (simp add: filtered_def)
    from ensure_faits_absent[OF wff numf] obtain f' where
      e: "ensure_faits f = Inr f'"
      and absent: "\<forall>c. c \<notin> set (columns f) \<and> c \<noteq> ''faits'' \<longrightarrow> index_of c (columns f') = None"
      by blast
    from a cf cg absent have "index_of ''classe'' (columns f') = None" by simp
    then have "crime_types_distribution_of f' = Inl (KeyError ''classe'')"
      by (simp add: crime_types_distribution_of_def col_pos_def)
    with flt e show "snd (get_crime_types_distribution df dc y) = Inl (KeyError ''classe'')"
      by (simp add: get_crime_types_distribution_def)
  qed
qed

lemma top_departments_missing_column:
  assumes wf: "wf_df df" and num: "numeric_counts df"
  shows "truthy_int y \<and> ''annee'' \<notin> set (columns df) \<longrightarrow>
           snd (get_top_departments df n y) = Inl (KeyError ''annee'')"
    and "(truthy_int y \<longrightarrow> ''annee'' \<in> set (columns df))
           \<and> ''code_dept'' \<notin> set (columns df) \<longrightarrow>
           snd (get_top_departments df n y) = Inl (KeyError ''code_dept'')"
    and "(truthy_int y \<longrightarrow> ''annee'' \<in> set (columns df))
           \<and> ''code_dept'' \<in> set (columns df) \<and> ''departement'' \<notin> set (columns df) \<longrightarrow>
           snd (get_top_departments df n y) = Inl (KeyError ''departement'')"
proof -
  show "truthy_int y \<and> ''annee'' \<notin> set (columns df) \<longrightarrow>
           snd (get_top_departments df n y) = Inl (KeyError ''annee'')"
    by (simp add: get_top_departments_def filter_if_missing)
  have later: "snd (get_top_departments df n y) = Inl (KeyError c)"
    if an: "truthy_int y \<longrightarrow> ''annee'' \<in> set (columns df)"
      and c: "(c = ''code_dept'' \<and> ''code_dept'' \<notin> set (columns df))
            \<or> (c = ''departement'' \<and> ''code_dept'' \<in> set (columns df)
                \<and> ''departement'' \<notin> set (columns df))" for c
  proof -
    from filter_if_total[OF wf num an, of "Num (int_val y)"] obtain f where
      f: "filter_if (truthy_int y) ''annee'' (Num (int_val y)) df = Inr f"
      and wff: "wf_df f" and numf: "numeric_counts f" and cf: "columns f = columns df"
      by blast
    from ensure_faits_absent[OF wff numf] obtain f' where
      e: "ensure_faits f = Inr f'"
      and present: "\<forall>c. c \<in> set (columns f) \<longrightarrow> (\<exists>i. index_of c (columns f') = Some i)"
      and absent: "\<forall>c. c \<notin> set (columns f) \<and> c \<noteq> ''faits'' \<longrightarrow> index_of c (columns f') = None"
      by blast
    from c have "ranked_departments f' = Inl (KeyError c)"
    proof
      assume "c = ''code_dept'' \<and> ''code_dept'' \<notin> set (columns df)"
      with absent cf have "index_of ''code_dept'' (columns f') = None" "c = ''code_dept''"
        by simp_all
      then show ?thesis by (simp add: ranked_departments_def col_pos_def)
    next
      assume a: "c = ''departement'' \<and> ''code_dept'' \<in> set (columns df)
                \<and> ''departement'' \<notin> set (columns df)"
      with absent cf have "index_of ''departement'' (columns f') = None" by simp
      moreover from a present cf obtain i where "index_of ''code_dept'' (columns f') = Some i"
        by auto
      ultimately show ?thesis using a by (simp add: ranked_departments_def col_pos_def)
    qed
    with f e show ?thesis by (simp add: get_top_departments_def)
  qed
  show "(truthy_int y \<longrightarrow> ''annee'' \<in> set (columns df))
           \<and> ''code_dept'' \<notin> set (columns df) \<longrightarrow>
           snd (get_top_departments df n y) = Inl (KeyError ''code_dept'')"
    using later[of "''code_dept''"] by blast
  show "(truthy_int y \<longrightarrow> ''annee'' \<in> set (columns df))
           \<and> ''code_dept'' \<in> set (columns df) \<and> ''departement'' \<notin> set (columns df) \<longrightarrow>
           snd (get_top_departments df n y) = Inl (KeyError ''departement'')"
    using later[of "''departement''"] by blast
qed

section \<open>The claims\<close>

subsection \<open>The rate\<close>

text \<open>
  Claim C7. \<open>calculate_crime_rate\<close> is defined on all its inputs: with a population of
  zero the rate is the number 0, with a positive population it is the total divided by
  the population, times 1000, and for 2000 facts and a million inhabitants it is 2.
\<close>

theorem crime_rate_total:
  "calculate_crime_rate x 0 = 0
   \<and> (0 < p \<longrightarrow> calculate_crime_rate x p = of_int x / of_int p * 1000)
   \<and> calculate_crime_rate 2000 1000000 = 2"
  by (simp add: calculate_crime_rate_def)

theorem crime_rate_total_witness:
  "calculate_crime_rate 7 0 = 0
   \<and> (0 < (4::int) \<and> calculate_crime_rate 7 4 = 1750)
   \<and> calculate_crime_rate 2000 1000000 = 2"
  using crime_rate_total [of 7 4] by simp

subsection \<open>Optional filters\<close>

text \<open>
  Claim C10. The optional filters are tested for their truth value: the year 0 given to
  \<open>get_crime_types_distribution\<close> or \<open>get_top_departments\<close>, and the empty department
  code given to \<open>get_temporal_evolution\<close> or \<open>get_crime_types_distribution\<close>, give
  what no filter gives (the outcome, and the caller's table afterwards).
\<close>

theorem falsy_filters_are_no_filters:
  "get_crime_types_distribution df dc (Some 0) = get_crime_types_distribution df dc None
   \<and> get_top_departments df n (Some 0) = get_top_departments df n None
   \<and> get_temporal_evolution df (Some []) = get_temporal_evolution df None
   \<and> get_crime_types_distribution df (Some []) y = get_crime_types_distribution df None y"
  by (simp add: get_crime_types_distribution_def get_top_departments_def
        get_temporal_evolution_def filtered_def filter_if_def)

subsection \<open>Sum conservation of the department statistics\<close>

text \<open>
  Claim C5, as the code has it: when \<open>get_department_stats\<close> returns, and no row of the
  table misses its department code or its department name, the totals of the result add up
  to the sum of the count column of the table (the table \<open>df'\<close> being the caller's table
  with its count column, as the call leaves it).
\<close>

theorem department_stats_sum_conservation:
  assumes res: "get_department_stats df = (df', Inr res)"
    and ic: "index_of ''code_dept'' (columns df) = Some ic"
    and idp: "index_of ''departement'' (columns df) = Some idp"
    and jf: "index_of ''faits'' (columns df') = Some jf"
    and nomiss: "list_all (\<lambda>r. cell_at ic r \<noteq> NaN \<and> cell_at idp r \<noteq> NaN) (rows df)"
  shows "sum_cells (column jf df') = Inr (sum_list (map st_total_faits res))"
proof -
  from res have ens: "ensure_faits df = Inr df'" and st: "department_stats_of df' = Inr res"
    by (auto simp: get_department_stats_def split: sum.splits)
  have ic': "col_pos df' ''code_dept'' = Inr ic" and idp': "col_pos df' ''departement'' = Inr idp"
    and jf': "col_pos df' ''faits'' = Inr jf"
    using ensure_faits_keeps_index[OF ens ic] ensure_faits_keeps_index[OF ens idp] jf
    by (simp_all add: col_pos_Inr)
  from st obtain ia where nostr: "\<not> has_str jf (rows df')"
    and r: "res = sort_desc st_total_faits
             (map (\<lambda>(k, g). \<lparr>st_code_dept = cell_at 0 k, st_departement = cell_at 1 k,
                              st_total_faits = group_sum jf g,
                              st_nb_enregistrements = group_count ia g\<rparr>)
                (groupby [ic, idp] (rows df')))"
    by (auto simp: department_stats_of_def ic' idp' jf' bind_err_Inr split: if_splits)
  have "sum_list (map st_total_faits res)
      = sum_list (map (\<lambda>(k, g). group_sum jf g) (groupby [ic, idp] (rows df')))"
    by (simp add: r sum_list_sort_desc comp_def case_prod_unfold)
  also have "\<dots> = group_sum jf (filter (\<lambda>r. NaN \<notin> set (key_of [ic, idp] r)) (rows df'))"
    by (rule groupby_sum)
  also have "filter (\<lambda>r. NaN \<notin> set (key_of [ic, idp] r)) (rows df') = rows df'"
  proof -
    have "list_all (\<lambda>r. cell_at ic r \<noteq> NaN) (rows df')"
      using nomiss by (intro ensure_faits_keeps_cells[OF ens]) (auto simp: list_all_iff)
    moreover have "list_all (\<lambda>r. cell_at idp r \<noteq> NaN) (rows df')"
      using nomiss by (intro ensure_faits_keeps_cells[OF ens]) (auto simp: list_all_iff)
    ultimately show ?thesis
      by (auto simp: key_of_def list_all_iff intro!: filter_True)
  qed
  finally show ?thesis using nostr by (simp add: sum_cells_column)
qed

theorem department_stats_sum_conservation_witness:
  "get_department_stats example_table =
     (example_table,
      Inr [\<lparr>st_code_dept = Str ''75'', st_departement = Str ''Paris'',
             st_total_faits = 250, st_nb_enregistrements = 2\<rparr>,
           \<lparr>st_code_dept = Str ''13'', st_departement = Str ''Bouches-du-Rhone'',
             st_total_faits = 100, st_nb_enregistrements = 2\<rparr>])
   \<and> sum_cells (column 4 example_table) = Inr (250 + 100)"
proof -
  have r: "get_department_stats example_table =
     (example_table,
      Inr [\<lparr>st_code_dept = Str ''75'', st_departement = Str ''Paris'',
             st_total_faits = 250, st_nb_enregistrements = 2\<rparr>,
           \<lparr>st_code_dept = Str ''13'', st_departement = Str ''Bouches-du-Rhone'',
             st_total_faits = 100, st_nb_enregistrements = 2\<rparr>])"
    by code_simp
  have ic: "index_of ''code_dept'' (columns example_table) = Some 0" by code_simp
  have idp: "index_of ''departement'' (columns example_table) = Some 1" by code_simp
  have jf: "index_of ''faits'' (columns example_table) = Some 4" by code_simp
  have nm: "list_all (\<lambda>r. cell_at 0 r \<noteq> NaN \<and> cell_at 1 r \<noteq> NaN) (rows example_table)"
    by code_simp
  from department_stats_sum_conservation[OF r ic idp jf nm] r show ?thesis by simp
qed

text \<open>
  Claim C5 as stated, for every table, fails: \<open>groupby\<close> drops the row whose department
  name is missing, so the result is empty while the count column sums to 5.
\<close>

theorem department_stats_loses_counts_counterexample:
  "snd (get_department_stats missing_name_table) = Inr []
   \<and> sum_cells (column 4 missing_name_table) = Inr 5"
  by code_simp

subsection \<open>The summary on an empty table\<close>

text \<open>
  Claim C9 fails on the code. \<open>get_data_summary\<close> guards each fragment by the presence
  of its column, but on a table with no row that has the column \<open>annee\<close>, the minimum
  of no years raises \<open>ValueError\<close> and no summary is returned. A table with no row and
  no \<open>annee\<close> column does get its summary.
\<close>

theorem summary_on_empty_table:
  assumes "rows df = []"
  shows "(''annee'' \<in> set (columns df) \<longrightarrow> get_data_summary df = Inl ValueError)
       \<and> (''annee'' \<notin> set (columns df) \<longrightarrow> (\<exists>s. get_data_summary df = Inr s))"
proof (intro conjI impI)
  assume "''annee'' \<in> set (columns df)"
  then obtain i where "index_of ''annee'' (columns df) = Some i"
    using index_of_mem by blast
  then show "get_data_summary df = Inl ValueError"
    using assms by (simp add: get_data_summary_def column_def period_def)
next
  assume "''annee'' \<notin> set (columns df)"
  then have a: "index_of ''annee'' (columns df) = None" by (simp add: index_of_None)
  have t: "\<exists>total. columns_total df cols = Inr total" for cols
    using assms by (simp add: columns_total_def has_str_def list_ex_iff Let_def)
  show "\<exists>s. get_data_summary df = Inr s"
  proof (cases "index_of ''faits'' (columns df)")
    case None
    from t[of "filter isdigit (columns df)"] obtain total where
      "columns_total df (filter isdigit (columns df)) = Inr total" by blast
    with None a show ?thesis
      by (simp add: get_data_summary_def Let_def)
  next
    case (Some j)
    with a assms show ?thesis
      by (simp add: get_data_summary_def Let_def column_def sum_cells_def)
  qed
qed

theorem summary_on_empty_table_witness:
  "rows empty_table = [] \<and> ''annee'' \<in> set (columns empty_table)
   \<and> get_data_summary empty_table = Inl ValueError"
proof -
  have r: "rows empty_table = []" by code_simp
  have a: "''annee'' \<in> set (columns empty_table)" by code_simp
  from summary_on_empty_table[OF r] a r show ?thesis by blast
qed

subsection \<open>The first departments\<close>



subsection \<open>The distribution by type of crime\<close>




lemma evolution_total:
  assumes wf: "wf_df df" and num: "numeric_counts df"
    and an: "''annee'' \<in> set (columns df)"
    and cd: "truthy_str dc \<longrightarrow> ''code_dept'' \<in> set (columns df)"
  shows "\<exists>res. snd (get_temporal_evolution df dc) = Inr res"
proof -
  from filter_if_total[OF wf num cd, of "Str (str_val dc)"] obtain f where
    f: "filter_if (truthy_str dc) ''code_dept'' (Str (str_val dc)) df = Inr f"
    and wff: "wf_df f" and numf: "numeric_counts f" and cf: "columns f = columns df"
    by blast
  from ensure_faits_total[OF wff numf] obtain f' jf where
    e: "ensure_faits f = Inr f'" and jf: "index_of ''faits'' (columns f') = Some jf"
    and ns: "\<not> has_str jf (rows f')"
    and keep: "\<forall>c i. index_of c (columns f) = Some i \<longrightarrow> index_of c (columns f') = Some i"
    by blast
  from an cf have "''annee'' \<in> set (columns f)" by simp
  then obtain ia where "index_of ''annee'' (columns f) = Some ia"
    using index_of_mem by blast
  with keep have ia: "index_of ''annee'' (columns f') = Some ia" by blast
  from temporal_evolution_of_total[OF ia jf ns] obtain res where
    r: "temporal_evolution_of f' = Inr res" by blast
  show ?thesis
  proof (cases "truthy_str dc")
    case True
    with f e r show ?thesis by (simp add: get_temporal_evolution_def filter_if_def)
  next
    case False
    with f have "f = df" by (simp add: filter_if_def)
    with False e r show ?thesis by (simp add: get_temporal_evolution_def)
  qed
qed

subsection \<open>The change from one year to the next\<close>

text \<open>
  Claim C2, as the code has it. On a well-formed table with a year column (and a
  department code column when a department is asked for) whose count cells hold no string,
  \<open>get_temporal_evolution\<close> returns. Let \<open>f\<close> be the table after the optional filter on the
  department (the table itself without a department, its rows of that department
  otherwise), and \<open>f'\<close> that table with its count column. What is returned has one row per
  year found in \<open>f'\<close> (missing years left out), in strictly ascending order of the years,
  each with the sum of the counts of the rows of that year. The first row, the earliest
  year, has no change (NaN), and each later row has the change computed by floating-point
  division by the total of the row before, the year that precedes it in the table: when
  that total is zero the change is plus infinity for a positive total, minus infinity for
  a negative one, and NaN only when both totals are zero; otherwise it is the quotient of
  the two totals, minus 1, times 100. The division raises no error.
\<close>

theorem temporal_evolution_change:
  "(wf_df df \<and> numeric_counts df \<and> ''annee'' \<in> set (columns df)
      \<and> (truthy_str dc \<longrightarrow> ''code_dept'' \<in> set (columns df))
      \<longrightarrow> (\<exists>res. snd (get_temporal_evolution df dc) = Inr res))
   \<and> (snd (get_temporal_evolution df dc) = Inr res \<longrightarrow>
         (res \<noteq> [] \<longrightarrow> ev_evolution_pct (res ! 0) = FNaN)
       \<and> (\<forall>i. Suc i < length res \<longrightarrow>
             ev_evolution_pct (res ! Suc i) =
               (if ev_total_faits (res ! i) = 0
                then (if 0 < ev_total_faits (res ! Suc i) then PInf
                      else if ev_total_faits (res ! Suc i) < 0 then NInf else FNaN)
                else Fin ((of_int (ev_total_faits (res ! Suc i))
                            / of_int (ev_total_faits (res ! i)) - 1) * 100)))
       \<and> (\<forall>i. Suc i < length res \<and> ev_total_faits (res ! i) = 0
                \<and> 0 < ev_total_faits (res ! Suc i)
             \<longrightarrow> ev_evolution_pct (res ! Suc i) = PInf)
       \<and> (\<exists>f f' ia jf.
             filter_if (truthy_str dc) ''code_dept'' (Str (str_val dc)) df = Inr f
           \<and> (\<not> truthy_str dc \<longrightarrow> f = df)
           \<and> (truthy_str dc \<longrightarrow>
                 (\<exists>ic. index_of ''code_dept'' (columns df) = Some ic
                       \<and> rows f = filter (\<lambda>r. cell_at ic r = Str (str_val dc)) (rows df)))
           \<and> ensure_faits f = Inr f'
           \<and> index_of ''annee'' (columns f') = Some ia
           \<and> index_of ''faits'' (columns f') = Some jf
           \<and> sorted_wrt (\<lambda>a b. cell_ord (ev_annee a) < cell_ord (ev_annee b)) res
           \<and> (\<forall>i j a b. i < j \<and> j < length res \<and> ev_annee (res ! i) = Num a
                    \<and> ev_annee (res ! j) = Num b \<longrightarrow> a < b)
           \<and> (\<forall>row \<in> set res. cell_ord (ev_annee (res ! 0)) \<le> cell_ord (ev_annee row))
           \<and> set (map ev_annee res)
               = {cell_at ia r | r. r \<in> set (rows f') \<and> cell_at ia r \<noteq> NaN}
           \<and> (\<forall>row \<in> set res.
                 ev_total_faits row =
                   group_sum jf (filter (\<lambda>r. cell_at ia r = ev_annee row) (rows f')))))"
proof (intro conjI impI)
  assume "wf_df df \<and> numeric_counts df \<and> ''annee'' \<in> set (columns df)
      \<and> (truthy_str dc \<longrightarrow> ''code_dept'' \<in> set (columns df))"
  then show "\<exists>res. snd (get_temporal_evolution df dc) = Inr res"
    by (intro evolution_total) simp_all
next
  assume r: "snd (get_temporal_evolution df dc) = Inr res" and ne: "res \<noteq> []"
  from temporal_evolution_source[OF r] obtain X where "temporal_evolution_of X = Inr res"
    by blast
  note shape = temporal_evolution_of_shape[OF this]
  have "ev_evolution_pct (res ! 0) = map ev_evolution_pct res ! 0"
    using ne by simp
  also have "\<dots> = fmap (\<lambda>q. q * 100) (pct_change (map ev_total_faits res) ! 0)"
    using ne by (simp add: shape pct_change_length)
  also have "\<dots> = FNaN" using ne by (simp add: pct_change_first)
  finally show "ev_evolution_pct (res ! 0) = FNaN" .
next
  assume r: "snd (get_temporal_evolution df dc) = Inr res"
  from temporal_evolution_source[OF r] obtain X where "temporal_evolution_of X = Inr res"
    by blast
  note shape = temporal_evolution_of_shape[OF this]
  have change: "ev_evolution_pct (res ! Suc i) =
               (if ev_total_faits (res ! i) = 0
                then (if 0 < ev_total_faits (res ! Suc i) then PInf
                      else if ev_total_faits (res ! Suc i) < 0 then NInf else FNaN)
                else Fin ((of_int (ev_total_faits (res ! Suc i))
                            / of_int (ev_total_faits (res ! i)) - 1) * 100))"
    if i: "Suc i < length res" for i
  proof -
    have "ev_evolution_pct (res ! Suc i) = map ev_evolution_pct res ! Suc i"
      using i by simp
    also have "\<dots> = fmap (\<lambda>q. q * 100) (pct_change (map ev_total_faits res) ! Suc i)"
      using i by (simp add: shape pct_change_length)
    also have "\<dots> = fmap (\<lambda>q. q * 100) (fmap (\<lambda>q. q - 1)
        (fdiv (ev_total_faits (res ! Suc i)) (ev_total_faits (res ! i))))"
      using i by (simp add: pct_change_nth)
    finally show ?thesis by (simp only: scaled_pct)
  qed
  show "\<forall>i. Suc i < length res \<longrightarrow>
             ev_evolution_pct (res ! Suc i) =
               (if ev_total_faits (res ! i) = 0
                then (if 0 < ev_total_faits (res ! Suc i) then PInf
                      else if ev_total_faits (res ! Suc i) < 0 then NInf else FNaN)
                else Fin ((of_int (ev_total_faits (res ! Suc i))
                            / of_int (ev_total_faits (res ! i)) - 1) * 100))"
    using change by blast
  show "\<forall>i. Suc i < length res \<and> ev_total_faits (res ! i) = 0
                \<and> 0 < ev_total_faits (res ! Suc i)
             \<longrightarrow> ev_evolution_pct (res ! Suc i) = PInf"
  proof (intro allI impI)
    fix i
    assume a: "Suc i < length res \<and> ev_total_faits (res ! i) = 0
                \<and> 0 < ev_total_faits (res ! Suc i)"
    then have "Suc i < length res" by blast
    from change[OF this] a show "ev_evolution_pct (res ! Suc i) = PInf" by simp
  qed
  from r obtain f where
    f: "filter_if (truthy_str dc) ''code_dept'' (Str (str_val dc)) df = Inr f"
    and r1: "bind_err (ensure_faits f) temporal_evolution_of = Inr res"
    unfolding evolution_snd bind_err_Inr by blast
  from r1 obtain f' where f': "ensure_faits f = Inr f'"
    and r2: "temporal_evolution_of f' = Inr res"
    unfolding bind_err_Inr by blast
  from r2 obtain ia where ia: "index_of ''annee'' (columns f') = Some ia"
    by (cases "index_of ''annee'' (columns f')")
       (simp_all add: temporal_evolution_of_def col_pos_def)
  from r2 ia obtain jf where jf: "index_of ''faits'' (columns f') = Some jf"
    by (cases "index_of ''faits'' (columns f')")
       (simp_all add: temporal_evolution_of_def col_pos_def)
  note props = temporal_evolution_of_props[OF r2 ia jf]
  from filter_if_cases[OF f] have flt:
    "(\<not> truthy_str dc \<longrightarrow> f = df)
     \<and> (truthy_str dc \<longrightarrow>
           (\<exists>ic. index_of ''code_dept'' (columns df) = Some ic
                 \<and> rows f = filter (\<lambda>r. cell_at ic r = Str (str_val dc)) (rows df)))"
    by blast
  have asc: "cell_ord (ev_annee (res ! i)) < cell_ord (ev_annee (res ! j))"
    if "i < j" "j < length res" for i j
    using props(2) that by (rule sorted_wrt_nth_less)
  have num_asc: "\<forall>i j a b. i < j \<and> j < length res \<and> ev_annee (res ! i) = Num a
                    \<and> ev_annee (res ! j) = Num b \<longrightarrow> a < b"
  proof (intro allI impI)
    fix i j a b
    assume a: "i < j \<and> j < length res \<and> ev_annee (res ! i) = Num a
                    \<and> ev_annee (res ! j) = Num b"
    then have "cell_ord (ev_annee (res ! i)) < cell_ord (ev_annee (res ! j))"
      by (intro asc) simp_all
    with a show "a < b" by (simp add: cell_ord_Num)
  qed
  have first: "\<forall>row \<in> set res. cell_ord (ev_annee (res ! 0)) \<le> cell_ord (ev_annee row)"
  proof
    fix row assume "row \<in> set res"
    then obtain j where j: "j < length res" and row: "row = res ! j"
      by (auto simp: in_set_conv_nth)
    show "cell_ord (ev_annee (res ! 0)) \<le> cell_ord (ev_annee row)"
    proof (cases j)
      case 0
      then show ?thesis by (simp add: row)
    next
      case (Suc k)
      then have "0 < j" by simp
      from asc[OF this j] show ?thesis by (simp add: row)
    qed
  qed
  show "\<exists>f f' ia jf.
             filter_if (truthy_str dc) ''code_dept'' (Str (str_val dc)) df = Inr f
           \<and> (\<not> truthy_str dc \<longrightarrow> f = df)
           \<and> (truthy_str dc \<longrightarrow>
                 (\<exists>ic. index_of ''code_dept'' (columns df) = Some ic
                       \<and> rows f = filter (\<lambda>r. cell_at ic r = Str (str_val dc)) (rows df)))
           \<and> ensure_faits f = Inr f'
           \<and> index_of ''annee'' (columns f') = Some ia
           \<and> index_of ''faits'' (columns f') = Some jf
           \<and> sorted_wrt (\<lambda>a b. cell_ord (ev_annee a) < cell_ord (ev_annee b)) res
           \<and> (\<forall>i j a b. i < j \<and> j < length res \<and> ev_annee (res ! i) = Num a
                    \<and> ev_annee (res ! j) = Num b \<longrightarrow> a < b)
           \<and> (\<forall>row \<in> set res. cell_ord (ev_annee (res ! 0)) \<le> cell_ord (ev_annee row))
           \<and> set (map ev_annee res)
               = {cell_at ia r | r. r \<in> set (rows f') \<and> cell_at ia r \<noteq> NaN}
           \<and> (\<forall>row \<in> set res.
                 ev_total_faits row =
                   group_sum jf (filter (\<lambda>r. cell_at ia r = ev_annee row) (rows f')))"
  proof (rule exI[of _ f], rule exI[of _ f'], rule exI[of _ ia], rule exI[of _ jf],
      intro conjI)
    show "filter_if (truthy_str dc) ''code_dept'' (Str (str_val dc)) df = Inr f" by (rule f)
    show "\<not> truthy_str dc \<longrightarrow> f = df" using flt by blast
    show "truthy_str dc \<longrightarrow>
                 (\<exists>ic. index_of ''code_dept'' (columns df) = Some ic
                       \<and> rows f = filter (\<lambda>r. cell_at ic r = Str (str_val dc)) (rows df))"
      using flt by blast
    show "ensure_faits f = Inr f'" by (rule f')
    show "index_of ''annee'' (columns f') = Some ia" by (rule ia)
    show "index_of ''faits'' (columns f') = Some jf" by (rule jf)
    show "sorted_wrt (\<lambda>a b. cell_ord (ev_annee a) < cell_ord (ev_annee b)) res"
      by (rule props(2))
    show "\<forall>i j a b. i < j \<and> j < length res \<and> ev_annee (res ! i) = Num a
                    \<and> ev_annee (res ! j) = Num b \<longrightarrow> a < b"
      by (rule num_asc)
    show "\<forall>row \<in> set res. cell_ord (ev_annee (res ! 0)) \<le> cell_ord (ev_annee row)"
      by (rule first)
    show "set (map ev_annee res)
               = {cell_at ia r | r. r \<in> set (rows f') \<and> cell_at ia r \<noteq> NaN}"
      by (rule props(3))
    show "\<forall>row \<in> set res.
                 ev_total_faits row =
                   group_sum jf (filter (\<lambda>r. cell_at ia r = ev_annee row) (rows f'))"
      by (rule props(4))
  qed
qed

theorem temporal_evolution_change_witness:
  "wf_df example_table \<and> numeric_counts example_table
   \<and> snd (get_temporal_evolution example_table (Some ''75'')) =
       Inr [\<lparr>ev_annee = Num 2020, ev_total_faits = 100, ev_evolution_pct = FNaN\<rparr>,
            \<lparr>ev_annee = Num 2021, ev_total_faits = 150, ev_evolution_pct = Fin 50\<rparr>]
   \<and> Fin ((of_int 150 / of_int 100 - 1) * 100) = Fin 50
   \<and> cell_ord (Num 2020) < cell_ord (Num 2021)
   \<and> group_sum 4 (filter (\<lambda>r. cell_at 2 r = Num 2021)
        [[Str ''75'', Str ''Paris'', Num 2020, Str ''Vols'', Num 100],
         [Str ''75'', Str ''Paris'', Num 2021, Str ''Vols'', Num 150]]) = 150
   \<and> wf_df zero_year_table \<and> numeric_counts zero_year_table
   \<and> (\<exists>res. snd (get_temporal_evolution zero_year_table None) = Inr res
           \<and> map ev_total_faits res = [0, 50]
           \<and> ev_evolution_pct (res ! Suc 0) = PInf)"
proof -
  define res where "res =
    [\<lparr>ev_annee = Num 2020, ev_total_faits = 100, ev_evolution_pct = FNaN\<rparr>,
     \<lparr>ev_annee = Num 2021, ev_total_faits = 150, ev_evolution_pct = Fin 50\<rparr>]"
  define sel where "sel = example_table\<lparr>rows :=
      [[Str ''75'', Str ''Paris'', Num 2020, Str ''Vols'', Num 100],
       [Str ''75'', Str ''Paris'', Num 2021, Str ''Vols'', Num 150]]\<rparr>"
  have wf: "wf_df example_table" by code_simp
  have num: "numeric_counts example_table" by code_simp
  have an: "''annee'' \<in> set (columns example_table)" by code_simp
  have cd: "truthy_str (Some ''75'') \<longrightarrow> ''code_dept'' \<in> set (columns example_table)"
    by code_simp
  note t = temporal_evolution_change[of example_table "Some ''75''" res]
  from t wf num an cd
  have ex: "\<exists>r. snd (get_temporal_evolution example_table (Some ''75'')) = Inr r" by blast
  have r: "snd (get_temporal_evolution example_table (Some ''75'')) = Inr res"
    unfolding res_def by code_simp
  note body = t[THEN conjunct2, THEN mp, OF r]
  have i: "Suc 0 < length res" by (simp add: res_def)
  from body[THEN conjunct2, THEN conjunct1] i have "ev_evolution_pct (res ! Suc 0) =
               (if ev_total_faits (res ! 0) = 0
                then (if 0 < ev_total_faits (res ! Suc 0) then PInf
                      else if ev_total_faits (res ! Suc 0) < 0 then NInf else FNaN)
                else Fin ((of_int (ev_total_faits (res ! Suc 0))
                            / of_int (ev_total_faits (res ! 0)) - 1) * 100))"
    by blast
  then have change: "Fin ((of_int 150 / of_int 100 - 1) * 100) = Fin 50"
    by (simp add: res_def)
  have flt: "filter_if (truthy_str (Some ''75'')) ''code_dept'' (Str (str_val (Some ''75'')))
               example_table = Inr sel"
    unfolding sel_def by code_simp
  have ens: "ensure_faits sel = Inr sel" unfolding sel_def by code_simp
  have ia: "index_of ''annee'' (columns sel) = Some 2" unfolding sel_def by code_simp
  have jf: "index_of ''faits'' (columns sel) = Some 4" unfolding sel_def by code_simp
  from body[THEN conjunct2, THEN conjunct2, THEN conjunct2] obtain f f' ia' jf' where
    f: "filter_if (truthy_str (Some ''75'')) ''code_dept'' (Str (str_val (Some ''75'')))
          example_table = Inr f"
    and f': "ensure_faits f = Inr f'"
    and ia': "index_of ''annee'' (columns f') = Some ia'"
    and jf': "index_of ''faits'' (columns f') = Some jf'"
    and asc: "sorted_wrt (\<lambda>a b. cell_ord (ev_annee a) < cell_ord (ev_annee b)) res"
    and sums: "\<forall>row \<in> set res.
                 ev_total_faits row =
                   group_sum jf' (filter (\<lambda>r. cell_at ia' r = ev_annee row) (rows f'))"
    by (elim exE conjE) (rule that; assumption)
  from f flt have "f = sel" by simp
  with f' ens have "f' = sel" by simp
  with ia' jf' ia jf have idx: "ia' = 2" "jf' = 4" by simp_all
  have "res ! Suc 0 \<in> set res" using i by (rule nth_mem)
  with sums have "ev_total_faits (res ! Suc 0) =
      group_sum jf' (filter (\<lambda>r. cell_at ia' r = ev_annee (res ! Suc 0)) (rows f'))"
    by blast
  then have sum: "group_sum 4 (filter (\<lambda>r. cell_at 2 r = Num 2021)
        [[Str ''75'', Str ''Paris'', Num 2020, Str ''Vols'', Num 100],
         [Str ''75'', Str ''Paris'', Num 2021, Str ''Vols'', Num 150]]) = 150"
    by (simp add: idx \<open>f' = sel\<close> sel_def res_def)
  from asc have order: "cell_ord (Num 2020) < cell_ord (Num 2021)"
    by (simp add: res_def)
  define res0 where "res0 =
    [\<lparr>ev_annee = Num 2020, ev_total_faits = 0, ev_evolution_pct = FNaN\<rparr>,
     \<lparr>ev_annee = Num 2021, ev_total_faits = 50, ev_evolution_pct = PInf\<rparr>]"
  have wf0: "wf_df zero_year_table" by code_simp
  have num0: "numeric_counts zero_year_table" by code_simp
  have an0: "''annee'' \<in> set (columns zero_year_table)" by code_simp
  note t0 = temporal_evolution_change[of zero_year_table None]
  from t0[THEN conjunct1] wf0 num0 an0
  obtain r0 where r0: "snd (get_temporal_evolution zero_year_table None) = Inr r0"
    by auto
  have "snd (get_temporal_evolution zero_year_table None) = Inr res0"
    unfolding res0_def by code_simp
  with r0 have eq0: "r0 = res0" by simp
  note body0 = t0[of r0, THEN conjunct2, THEN mp, OF r0]
  have "Suc 0 < length r0 \<and> ev_total_faits (r0 ! 0) = 0 \<and> 0 < ev_total_faits (r0 ! Suc 0)"
    by (simp add: eq0 res0_def)
  with body0[THEN conjunct2, THEN conjunct2, THEN conjunct1]
  have inf: "ev_evolution_pct (r0 ! Suc 0) = PInf" by blast
  have tot0: "map ev_total_faits r0 = [0, 50]" by (simp add: eq0 res0_def)
  have zero: "\<exists>res. snd (get_temporal_evolution zero_year_table None) = Inr res
           \<and> map ev_total_faits res = [0, 50]
           \<and> ev_evolution_pct (res ! Suc 0) = PInf"
    by (rule exI[of _ r0]) (intro conjI r0 tot0 inf)
  show ?thesis
    using r unfolding res_def by (intro conjI wf num change order sum wf0 num0 zero)
qed

text \<open>
  Claim C2 as stated fails on its own example: after a year with a total of zero, the
  change of a year with 50 recorded facts is plus infinity, not a missing value.
\<close>

theorem temporal_evolution_infinite_counterexample:
  "snd (get_temporal_evolution zero_year_table None) =
     Inr [\<lparr>ev_annee = Num 2020, ev_total_faits = 0, ev_evolution_pct = FNaN\<rparr>,
          \<lparr>ev_annee = Num 2021, ev_total_faits = 50, ev_evolution_pct = PInf\<rparr>]
   \<and> PInf \<noteq> FNaN"
  by code_simp

subsection \<open>Which tables the aggregations accept\<close>

text \<open>
  Claim C3, as the code has it. Every aggregation resolves the count column itself, and on
  a well-formed table whose count cells hold no string it returns a result whenever the
  table has the columns it groups by and filters on: \<open>code_dept\<close>, \<open>departement\<close> and
  \<open>annee\<close> for the department statistics; \<open>annee\<close> for the evolution; \<open>classe\<close> for the
  distribution; \<open>code_dept\<close> and \<open>departement\<close> for the first departments; and the
  column of each filter that is in force. No aggregation checks for these columns: on a
  table without one of them, each of the four raises \<open>KeyError\<close> for the first column it
  reaches that is absent. The department statistics reach \<open>code_dept\<close>, \<open>departement\<close>,
  \<open>annee\<close>, in this order; the evolution the \<open>code_dept\<close> of its filter, then \<open>annee\<close>;
  the distribution the \<open>code_dept\<close> and the \<open>annee\<close> of its filters, then \<open>classe\<close>; the
  first departments the \<open>annee\<close> of their filter, then \<open>code_dept\<close>, then \<open>departement\<close>.
\<close>

theorem aggregations_need_their_columns:
  assumes wf: "wf_df df" and num: "numeric_counts df"
  shows "(''code_dept'' \<in> set (columns df) \<and> ''departement'' \<in> set (columns df)
            \<and> ''annee'' \<in> set (columns df)
          \<longrightarrow> (\<exists>res. snd (get_department_stats df) = Inr res))
       \<and> (''code_dept'' \<notin> set (columns df)
          \<longrightarrow> snd (get_department_stats df) = Inl (KeyError ''code_dept''))
       \<and> (''code_dept'' \<in> set (columns df) \<and> ''departement'' \<notin> set (columns df)
          \<longrightarrow> snd (get_department_stats df) = Inl (KeyError ''departement''))
       \<and> (''code_dept'' \<in> set (columns df) \<and> ''departement'' \<in> set (columns df)
            \<and> ''annee'' \<notin> set (columns df)
          \<longrightarrow> snd (get_department_stats df) = Inl (KeyError ''annee''))
       \<and> (''annee'' \<in> set (columns df)
            \<and> (truthy_str dept_code \<longrightarrow> ''code_dept'' \<in> set (columns df))
          \<longrightarrow> (\<exists>res. snd (get_temporal_evolution df dept_code) = Inr res))
       \<and> (''classe'' \<in> set (columns df)
            \<and> (truthy_str dept_code \<longrightarrow> ''code_dept'' \<in> set (columns df))
            \<and> (truthy_int year \<longrightarrow> ''annee'' \<in> set (columns df))
          \<longrightarrow> (\<exists>res. snd (get_crime_types_distribution df dept_code year) = Inr res))
       \<and> (''code_dept'' \<in> set (columns df) \<and> ''departement'' \<in> set (columns df)
            \<and> (truthy_int year \<longrightarrow> ''annee'' \<in> set (columns df))
          \<longrightarrow> (\<exists>res. snd (get_top_departments df n year) = Inr res))
       \<and> (truthy_str dept_code \<and> ''code_dept'' \<notin> set (columns df)
          \<longrightarrow> snd (get_temporal_evolution df dept_code) = Inl (KeyError ''code_dept''))
       \<and> ((truthy_str dept_code \<longrightarrow> ''code_dept'' \<in> set (columns df))
            \<and> ''annee'' \<notin> set (columns df)
          \<longrightarrow> snd (get_temporal_evolution df dept_code) = Inl (KeyError ''annee''))
       \<and> (truthy_str dept_code \<and> ''code_dept'' \<notin> set (columns df)
          \<longrightarrow> snd (get_crime_types_distribution df dept_code year)
                = Inl (KeyError ''code_dept''))
       \<and> ((truthy_str dept_code \<longrightarrow> ''code_dept'' \<in> set (columns df))
            \<and> truthy_int year \<and> ''annee'' \<notin> set (columns df)
          \<longrightarrow> snd (get_crime_types_distribution df dept_code year)
                = Inl (KeyError ''annee''))
       \<and> ((truthy_str dept_code \<longrightarrow> ''code_dept'' \<in> set (columns df))
            \<and> (truthy_int year \<longrightarrow> ''annee'' \<in> set (columns df))
            \<and> ''classe'' \<notin> set (columns df)
          \<longrightarrow> snd (get_crime_types_distribution df dept_code year)
                = Inl (KeyError ''classe''))
       \<and> (truthy_int year \<and> ''annee'' \<notin> set (columns df)
          \<longrightarrow> snd (get_top_departments df n year) = Inl (KeyError ''annee''))
       \<and> ((truthy_int year \<longrightarrow> ''annee'' \<in> set (columns df))
            \<and> ''code_dept'' \<notin> set (columns df)
          \<longrightarrow> snd (get_top_departments df n year) = Inl (KeyError ''code_dept''))
       \<and> ((truthy_int year \<longrightarrow> ''annee'' \<in> set (columns df))
            \<and> ''code_dept'' \<in> set (columns df) \<and> ''departement'' \<notin> set (columns df)
          \<longrightarrow> snd (get_top_departments df n year) = Inl (KeyError ''departement''))"
proof (intro conjI)
  show "''code_dept'' \<in> set (columns df) \<and> ''departement'' \<in> set (columns df)
            \<and> ''annee'' \<in> set (columns df)
          \<longrightarrow> (\<exists>res. snd (get_department_stats df) = Inr res)"
    using department_stats_total[OF wf num] by blast
  show "''code_dept'' \<notin> set (columns df)
          \<longrightarrow> snd (get_department_stats df) = Inl (KeyError ''code_dept'')"
    by (rule department_stats_missing_column(1)[OF wf num])
  show "''code_dept'' \<in> set (columns df) \<and> ''departement'' \<notin> set (columns df)
          \<longrightarrow> snd (get_department_stats df) = Inl (KeyError ''departement'')"
    by (rule department_stats_missing_column(2)[OF wf num])
  show "''code_dept'' \<in> set (columns df) \<and> ''departement'' \<in> set (columns df)
            \<and> ''annee'' \<notin> set (columns df)
          \<longrightarrow> snd (get_department_stats df) = Inl (KeyError ''annee'')"
    by (rule department_stats_missing_column(3)[OF wf num])
  show "''annee'' \<in> set (columns df)
            \<and> (truthy_str dept_code \<longrightarrow> ''code_dept'' \<in> set (columns df))
          \<longrightarrow> (\<exists>res. snd (get_temporal_evolution df dept_code) = Inr res)"
    using evolution_total[OF wf num] by blast
  show "''classe'' \<in> set (columns df)
            \<and> (truthy_str dept_code \<longrightarrow> ''code_dept'' \<in> set (columns df))
            \<and> (truthy_int year \<longrightarrow> ''annee'' \<in> set (columns df))
          \<longrightarrow> (\<exists>res. snd (get_crime_types_distribution df dept_code year) = Inr res)"
    using distribution_total[OF wf num] by blast
  show "''code_dept'' \<in> set (columns df) \<and> ''departement'' \<in> set (columns df)
            \<and> (truthy_int year \<longrightarrow> ''annee'' \<in> set (columns df))
          \<longrightarrow> (\<exists>res. snd (get_top_departments df n year) = Inr res)"
    using top_departments_total[OF wf num] by blast
  show "truthy_str dept_code \<and> ''code_dept'' \<notin> set (columns df)
          \<longrightarrow> snd (get_temporal_evolution df dept_code) = Inl (KeyError ''code_dept'')"
    by (rule evolution_missing_column(1)[OF wf num])
  show "(truthy_str dept_code \<longrightarrow> ''code_dept'' \<in> set (columns df))
            \<and> ''annee'' \<notin> set (columns df)
          \<longrightarrow> snd (get_temporal_evolution df dept_code) = Inl (KeyError ''annee'')"
    by (rule evolution_missing_column(2)[OF wf num])
  show "truthy_str dept_code \<and> ''code_dept'' \<notin> set (columns df)
          \<longrightarrow> snd (get_crime_types_distribution df dept_code year)
                = Inl (KeyError ''code_dept'')"
    by (rule distribution_missing_column(1)[OF wf num])
  show "(truthy_str dept_code \<longrightarrow> ''code_dept'' \<in> set (columns df))
            \<and> truthy_int year \<and> ''annee'' \<notin> set (columns df)
          \<longrightarrow> snd (get_crime_types_distribution df dept_code year)
                = Inl (KeyError ''annee'')"
    by (rule distribution_missing_column(2)[OF wf num])
  show "(truthy_str dept_code \<longrightarrow> ''code_dept'' \<in> set (columns df))
            \<and> (truthy_int year \<longrightarrow> ''annee'' \<in> set (columns df))
            \<and> ''classe'' \<notin> set (columns df)
          \<longrightarrow> snd (get_crime_types_distribution df dept_code year)
                = Inl (KeyError ''classe'')"
    by (rule distribution_missing_column(3)[OF wf num])
  show "truthy_int year \<and> ''annee'' \<notin> set (columns df)
          \<longrightarrow> snd (get_top_departments df n year) = Inl (KeyError ''annee'')"
    by (rule top_departments_missing_column(1)[OF wf num])
  show "(truthy_int year \<longrightarrow> ''annee'' \<in> set (columns df))
            \<and> ''code_dept'' \<notin> set (columns df)
          \<longrightarrow> snd (get_top_departments df n year) = Inl (KeyError ''code_dept'')"
    by (rule top_departments_missing_column(2)[OF wf num])
  show "(truthy_int year \<longrightarrow> ''annee'' \<in> set (columns df))
            \<and> ''code_dept'' \<in> set (columns df) \<and> ''departement'' \<notin> set (columns df)
          \<longrightarrow> snd (get_top_departments df n year) = Inl (KeyError ''departement'')"
    by (rule top_departments_missing_column(3)[OF wf num])
qed

theorem aggregations_need_their_columns_witness:
  "wf_df bare_table \<and> numeric_counts bare_table
   \<and> snd (get_department_stats bare_table) =
       Inr [\<lparr>st_code_dept = Str ''13'', st_departement = Str ''X'',
              st_total_faits = 1, st_nb_enregistrements = 1\<rparr>,
            \<lparr>st_code_dept = Str ''75'', st_departement = Str ''Paris'',
              st_total_faits = 1, st_nb_enregistrements = 1\<rparr>]
   \<and> snd (get_top_departments bare_table 1 (Some 2020)) =
       Inr [\<lparr>tp_code_dept = Str ''13'', tp_departement = Str ''X'', tp_total_faits = 1\<rparr>]
   \<and> wf_df no_name_table \<and> numeric_counts no_name_table
   \<and> snd (get_temporal_evolution no_name_table None) = Inl (KeyError ''annee'')
   \<and> snd (get_crime_types_distribution no_name_table None (Some 2020))
       = Inl (KeyError ''annee'')
   \<and> snd (get_top_departments no_name_table 1 (Some 2020)) = Inl (KeyError ''annee'')
   \<and> snd (get_top_departments no_name_table 1 None) = Inl (KeyError ''departement'')
   \<and> (\<exists>res. snd (get_crime_types_distribution no_name_table None None) = Inr res)"
proof -
  have wf: "wf_df bare_table" by code_simp
  have num: "numeric_counts bare_table" by code_simp
  have cols: "''code_dept'' \<in> set (columns bare_table)
      \<and> ''departement'' \<in> set (columns bare_table) \<and> ''annee'' \<in> set (columns bare_table)"
    by code_simp
  note t = aggregations_need_their_columns[OF wf num, of "None" "Some 2020" 1]
  from t[THEN conjunct1] cols
  have a: "\<exists>res. snd (get_department_stats bare_table) = Inr res" by blast
  from t[THEN conjunct2, THEN conjunct2, THEN conjunct2, THEN conjunct2, THEN conjunct2,
      THEN conjunct2, THEN conjunct1] cols
  have b: "\<exists>res. snd (get_top_departments bare_table 1 (Some 2020)) = Inr res"
    by blast
  have c: "snd (get_department_stats bare_table) =
       Inr [\<lparr>st_code_dept = Str ''13'', st_departement = Str ''X'',
              st_total_faits = 1, st_nb_enregistrements = 1\<rparr>,
            \<lparr>st_code_dept = Str ''75'', st_departement = Str ''Paris'',
              st_total_faits = 1, st_nb_enregistrements = 1\<rparr>]"
    by code_simp
  have d: "snd (get_top_departments bare_table 1 (Some 2020)) =
       Inr [\<lparr>tp_code_dept = Str ''13'', tp_departement = Str ''X'', tp_total_faits = 1\<rparr>]"
    by code_simp
  have wf': "wf_df no_name_table" by code_simp
  have num': "numeric_counts no_name_table" by code_simp
  have cd: "''code_dept'' \<in> set (columns no_name_table)" by code_simp
  have cl: "''classe'' \<in> set (columns no_name_table)" by code_simp
  have an: "''annee'' \<notin> set (columns no_name_table)" by code_simp
  have dp: "''departement'' \<notin> set (columns no_name_table)" by code_simp
  have no_dc: "\<not> truthy_str None" by simp
  have no_y: "\<not> truthy_int None" by simp
  have y: "truthy_int (Some 2020)" by simp
  note u = aggregations_need_their_columns[OF wf' num', of "None" "Some 2020" 1]
  note v = aggregations_need_their_columns[OF wf' num', of "None" "None" 1]
  from u[THEN conjunct2, THEN conjunct2, THEN conjunct2, THEN conjunct2, THEN conjunct2,
      THEN conjunct2, THEN conjunct2, THEN conjunct2, THEN conjunct1] no_dc an
  have e: "snd (get_temporal_evolution no_name_table None) = Inl (KeyError ''annee'')"
    by blast
  from u[THEN conjunct2, THEN conjunct2, THEN conjunct2, THEN conjunct2, THEN conjunct2,
      THEN conjunct2, THEN conjunct2, THEN conjunct2, THEN conjunct2, THEN conjunct2,
      THEN conjunct1]
    no_dc y an
  have f: "snd (get_crime_types_distribution no_name_table None (Some 2020))
       = Inl (KeyError ''annee'')"
    by blast
  from u[THEN conjunct2, THEN conjunct2, THEN conjunct2, THEN conjunct2, THEN conjunct2,
      THEN conjunct2, THEN conjunct2, THEN conjunct2, THEN conjunct2, THEN conjunct2,
      THEN conjunct2, THEN conjunct2, THEN conjunct1] y an
  have g: "snd (get_top_departments no_name_table 1 (Some 2020)) = Inl (KeyError ''annee'')"
    by blast
  from v[THEN conjunct2, THEN conjunct2, THEN conjunct2, THEN conjunct2, THEN conjunct2,
      THEN conjunct2, THEN conjunct2, THEN conjunct2, THEN conjunct2, THEN conjunct2,
      THEN conjunct2, THEN conjunct2, THEN conjunct2, THEN conjunct2] no_y cd dp
  have h: "snd (get_top_departments no_name_table 1 None) = Inl (KeyError ''departement'')"
    by blast
  from v[THEN conjunct2, THEN conjunct2, THEN conjunct2, THEN conjunct2, THEN conjunct2,
      THEN conjunct1]
    no_dc no_y cl
  have i: "\<exists>res. snd (get_crime_types_distribution no_name_table None None) = Inr res"
    by blast
  show ?thesis by (intro conjI wf num c d wf' num' e f g h i)
qed

text \<open>
  Claim C3 as stated fails on its own example: on a table with no department name and no
  year, the department statistics raise \<open>KeyError\<close>.
\<close>

theorem department_stats_key_error_counterexample:
  "snd (get_department_stats no_name_table) = Inl (KeyError ''departement'')"
  by code_simp

lemma canonical_fixed:
  assumes "canonical d"
  shows "clean_crime_data p d = Inr d"
proof (rule clean_fixed)
  from assms show "list_all (\<lambda>c. rename_col c = c) (columns d)"
    by (simp add: canonical_def)
  show "''annee'' \<in> set (columns d) \<longrightarrow>
               (\<exists>i. positions ''annee'' (columns d) = [i]
                    \<and> (\<forall>r \<in> set (rows d). r[i := to_numeric p (cell_at i r)] = r))"
  proof
    assume "''annee'' \<in> set (columns d)"
    then have "positions ''annee'' (columns d) \<noteq> []" by (simp add: positions_nonempty)
    moreover from assms have "length (positions ''annee'' (columns d)) \<le> 1"
      by (simp add: canonical_def)
    ultimately obtain i where i: "positions ''annee'' (columns d) = [i]"
      by (cases "positions ''annee'' (columns d)") auto
    have "\<forall>r \<in> set (rows d). is_Num (cell_at i r)"
      using assms i by (auto simp: canonical_def list_all_iff)
    then have "\<forall>r \<in> set (rows d). r[i := to_numeric p (cell_at i r)] = r"
      by (simp add: update_year_Num)
    with i show "\<exists>i. positions ''annee'' (columns d) = [i]
                    \<and> (\<forall>r \<in> set (rows d). r[i := to_numeric p (cell_at i r)] = r)"
      by blast
  qed
  from assms show "\<forall>r \<in> set (rows d). complete_row d r"
    by (auto simp: canonical_def complete_row_def list_all_iff)
qed

subsection \<open>Normalising twice\<close>

text \<open>
  Claim C8. \<open>_clean_crime_data\<close> returns a table in canonical form as it is (same columns,
  same rows), and whenever it returns a table, applying it again to that table returns the
  same table: normalising twice is normalising once, for every raw table (when the first
  call raises, there is nothing to normalise again), whatever string-to-number reader
  \<open>to_numeric\<close> uses.
\<close>

theorem normalisation_idempotent:
  "(canonical df \<longrightarrow> clean_crime_data parse df = Inr df)
   \<and> (clean_crime_data parse df = Inr df' \<longrightarrow> clean_crime_data parse df' = Inr df')
   \<and> bind_err (clean_crime_data parse df) (clean_crime_data parse) = clean_crime_data parse df"
proof (intro conjI impI)
  assume "canonical df"
  then show "clean_crime_data parse df = Inr df" by (rule canonical_fixed)
next
  assume "clean_crime_data parse df = Inr df'"
  note r = clean_result[OF this]
  show "clean_crime_data parse df' = Inr df'"
    by (rule clean_fixed) (rule r)+
next
  show "bind_err (clean_crime_data parse df) (clean_crime_data parse) = clean_crime_data parse df"
  proof (cases "clean_crime_data parse df")
    case (Inl e)
    then show ?thesis by simp
  next
    case (Inr d)
    note r = clean_result[OF this]
    have "clean_crime_data parse d = Inr d"
      by (rule clean_fixed) (rule r)+
    with Inr show ?thesis by simp
  qed
qed

theorem normalisation_idempotent_witness:
  "clean_crime_data read_year raw_table =
     Inr \<lparr>columns = canonical_columns,
          rows = [[Str ''75'', Str ''Paris'', Num 2020, Str ''Vols'', Num 100]]\<rparr>
   \<and> clean_crime_data read_year
       \<lparr>columns = canonical_columns,
        rows = [[Str ''75'', Str ''Paris'', Num 2020, Str ''Vols'', Num 100]]\<rparr> =
     Inr \<lparr>columns = canonical_columns,
          rows = [[Str ''75'', Str ''Paris'', Num 2020, Str ''Vols'', Num 100]]\<rparr>
   \<and> canonical example_table
   \<and> clean_crime_data read_year example_table = Inr example_table"
proof -
  define t where "t = \<lparr>columns = canonical_columns,
          rows = [[Str ''75'', Str ''Paris'', Num 2020, Str ''Vols'', Num 100]]\<rparr>"
  have c: "clean_crime_data read_year raw_table = Inr t"
    unfolding t_def by code_simp
  have k: "canonical example_table" by code_simp
  from normalisation_idempotent[of raw_table read_year t] c
  have "clean_crime_data read_year t = Inr t" by blast
  moreover from normalisation_idempotent[of example_table read_year t] k
  have "clean_crime_data read_year example_table = Inr example_table" by blast
  ultimately show ?thesis using c k by (simp add: t_def)
qed

subsection \<open>What the aggregations do to the caller's table\<close>

text \<open>
  Claim C1 fails on the code. \<open>get_crime_types_distribution\<close> and \<open>get_top_departments\<close>
  work on a copy and leave the caller's table as it was, and so does
  \<open>get_temporal_evolution\<close> with a department code (it works on the selection), and
  every aggregation on a table that has a \<open>faits\<close> column. But on a table without one,
  \<open>get_department_stats\<close>, and \<open>get_temporal_evolution\<close> without a department code,
  assign the new column into the caller's table: afterwards it has the column \<open>faits\<close>
  that it did not have before.
\<close>

theorem aggregations_and_the_callers_table:
  "fst (get_crime_types_distribution df dept_code year) = df
   \<and> fst (get_top_departments df n year) = df
   \<and> (truthy_str dept_code \<longrightarrow> fst (get_temporal_evolution df dept_code) = df)
   \<and> (''faits'' \<in> set (columns df) \<longrightarrow>
         fst (get_department_stats df) = df \<and> fst (get_temporal_evolution df dept_code) = df)
   \<and> (''faits'' \<notin> set (columns df) \<and> month_cols df = [] \<longrightarrow>
         fst (get_department_stats df) = add_column df ''faits'' (map (\<lambda>r. Num 1) (rows df))
       \<and> columns (fst (get_department_stats df)) = columns df @ [''faits'']
       \<and> columns (fst (get_department_stats df)) \<noteq> columns df
       \<and> (\<not> truthy_str dept_code \<longrightarrow>
             columns (fst (get_temporal_evolution df dept_code)) = columns df @ [''faits'']))
   \<and> (''faits'' \<notin> set (columns df) \<and> row_sums df (month_cols df) = Inr s \<longrightarrow>
         columns (fst (get_department_stats df)) = columns df @ [''faits''])"
  by (auto simp: get_crime_types_distribution_def get_top_departments_def
        get_temporal_evolution_def get_department_stats_def ensure_faits_def add_column_def
        split: sum.splits)

theorem aggregations_and_the_callers_table_witness:
  "columns (fst (get_department_stats bare_table))
     = [''code_dept'', ''departement'', ''annee'', ''classe'', ''faits'']
   \<and> columns bare_table = [''code_dept'', ''departement'', ''annee'', ''classe'']
   \<and> fst (get_temporal_evolution example_table None) = example_table"
proof -
  have a: "''faits'' \<notin> set (columns bare_table) \<and> month_cols bare_table = []" by code_simp
  have b: "''faits'' \<in> set (columns example_table)" by code_simp
  have c: "columns bare_table = [''code_dept'', ''departement'', ''annee'', ''classe'']"
    by code_simp
  from aggregations_and_the_callers_table[of bare_table None None 1] a
  have "columns (fst (get_department_stats bare_table)) = columns bare_table @ [''faits'']"
    by blast
  moreover from aggregations_and_the_callers_table[of example_table None None 1] b
  have "fst (get_temporal_evolution example_table None) = example_table" by blast
  ultimately show ?thesis using c by simp
qed

end
